theory Spec2Isabelle
  imports Complex_Main "HOL-Library.Log_Nat" "HOL-Library.Sublist"
begin

section \<open>Python values used by watermark.py\<close>

subsection \<open>Exceptions\<close>

text \<open>
  The exception classes that the modelled operations raise. Every one of them derives
  from Python's \<open>Exception\<close>, so an \<open>except Exception\<close> clause catches each value of
  this type. A raising computation returns \<open>Inl e\<close>, a returning one \<open>Inr v\<close>.
\<close>

datatype error =
    ValueError
  | OverflowError
  | OSError
  | UnicodeEncodeError
  | UnidentifiedImageError

definition ebind :: "error + 'a \<Rightarrow> ('a \<Rightarrow> error + 'b) \<Rightarrow> error + 'b" where
  "ebind m f = (case m of Inl e \<Rightarrow> Inl e | Inr x \<Rightarrow> f x)"

subsection \<open>Floating point numbers\<close>

text \<open>
  A Python \<open>float\<close> is an IEEE 754 binary64 number. A finite one is modelled by its
  exact rational value, and every arithmetic result is rounded to the nearest
  representable value, ties to even (\<open>round_double\<close>): 53 significant bits, least
  exponent \<open>-1074\<close>, overflow to infinity from \<open>2^1024\<close> on. The sign of a zero is not
  modelled: \<open>int\<close> maps both zeros to \<open>0\<close>.
\<close>

datatype pyfloat = Finite rat | PosInf | NegInf | NaN

definition ilog2 :: "rat \<Rightarrow> int" where
  \<comment> \<open>for \<open>0 < x\<close>: the integer \<open>k\<close> with \<open>2^k \<le> x < 2^(k+1)\<close>\<close>
  "ilog2 x = (case quotient_of x of (n, d) \<Rightarrow>
     let k = bitlen n - bitlen d in if 2 powi k \<le> x then k else k - 1)"

definition ulp_exp :: "rat \<Rightarrow> int" where
  \<comment> \<open>exponent of the unit in the last place of the binary64 numbers around \<open>x\<close>\<close>
  "ulp_exp x = max (- 1074) (ilog2 \<bar>x\<bar> - 52)"

definition round_half_even :: "rat \<Rightarrow> int" where
  "round_half_even y =
     (let f = \<lfloor>y\<rfloor>; r = y - of_int f
      in if r < 1 / 2 then f else if 1 / 2 < r then f + 1 else if even f then f else f + 1)"

definition round_val :: "rat \<Rightarrow> rat" where
  \<comment> \<open>the nearest multiple of the unit in the last place, ties to the even multiple\<close>
  "round_val x = of_int (round_half_even (x / 2 powi ulp_exp x)) * 2 powi ulp_exp x"

definition overflow_bound :: rat where
  "overflow_bound = 2 ^ 1024"

definition round_double :: "rat \<Rightarrow> pyfloat" where
  "round_double x =
     (if x = 0 then Finite 0
      else let v = round_val x
           in if overflow_bound \<le> v then PosInf
              else if v \<le> - overflow_bound then NegInf
              else Finite v)"

fun float_mul :: "pyfloat \<Rightarrow> pyfloat \<Rightarrow> pyfloat" where
  "float_mul (Finite a) (Finite b) = round_double (a * b)"
| "float_mul NaN _ = NaN"
| "float_mul _ NaN = NaN"
| "float_mul (Finite a) PosInf = (if a = 0 then NaN else if 0 < a then PosInf else NegInf)"
| "float_mul (Finite a) NegInf = (if a = 0 then NaN else if 0 < a then NegInf else PosInf)"
| "float_mul PosInf (Finite b) = (if b = 0 then NaN else if 0 < b then PosInf else NegInf)"
| "float_mul NegInf (Finite b) = (if b = 0 then NaN else if 0 < b then NegInf else PosInf)"
| "float_mul PosInf PosInf = PosInf"
| "float_mul PosInf NegInf = NegInf"
| "float_mul NegInf PosInf = NegInf"
| "float_mul NegInf NegInf = PosInf"

definition float_of_int :: "int \<Rightarrow> error + pyfloat" where
  \<comment> \<open>the conversion Python applies to the \<open>int\<close> operand of \<open>int * float\<close>\<close>
  "float_of_int n =
     (case round_double (of_int n) of
        Finite r \<Rightarrow> Inr (Finite r)
      | _ \<Rightarrow> Inl OverflowError)"

definition py_trunc :: "rat \<Rightarrow> int" where
  "py_trunc r = (if 0 \<le> r then \<lfloor>r\<rfloor> else \<lceil>r\<rceil>)"

definition py_int :: "pyfloat \<Rightarrow> error + int" where
  \<comment> \<open>\<open>int(f)\<close>: the value truncated towards zero\<close>
  "py_int f =
     (case f of
        Finite r \<Rightarrow> Inr (py_trunc r)
      | NaN \<Rightarrow> Inl ValueError
      | _ \<Rightarrow> Inl OverflowError)"

definition int_of_product :: "int \<Rightarrow> pyfloat \<Rightarrow> error + int" where
  \<comment> \<open>\<open>int(n * f)\<close> for an \<open>int\<close> \<open>n\<close> and a \<open>float\<close> \<open>f\<close>\<close>
  "int_of_product n f = ebind (float_of_int n) (\<lambda>a. py_int (float_mul a f))"

subsection \<open>Strings and paths\<close>

definition str_lower :: "string \<Rightarrow> string" where
  \<comment> \<open>\<open>str.lower\<close> on the ASCII letters; every other character is kept, and none of them
      lower-cases to a letter of an allowed suffix\<close>
  "str_lower s =
     map (\<lambda>c. let n = (of_char c :: nat) in if 65 \<le> n \<and> n \<le> 90 then char_of (n + 32) else c) s"

primrec rfind_from :: "char \<Rightarrow> string \<Rightarrow> int \<Rightarrow> int \<Rightarrow> int" where
  "rfind_from c [] i found = found"
| "rfind_from c (x # xs) i found = rfind_from c xs (i + 1) (if x = c then i else found)"

definition rfind :: "string \<Rightarrow> char \<Rightarrow> int" where
  \<comment> \<open>\<open>s.rfind(c)\<close>: the highest index of \<open>c\<close>, or \<open>-1\<close>\<close>
  "rfind s c = rfind_from c s 0 (- 1)"

text \<open>
  A \<open>pathlib.Path\<close> is the list of its components. \<open>path_suffix\<close> is the property
  \<open>Path.suffix\<close>, \<open>path_parent\<close> is \<open>Path.parent\<close>, \<open>relative_to\<close> is the method of that
  name and \<open>a @ b\<close> is \<open>a / b\<close> for a relative \<open>b\<close>.
\<close>

type_synonym path = "string list"

definition path_name :: "path \<Rightarrow> string" where
  "path_name p = (if p = [] then [] else last p)"

definition path_suffix :: "path \<Rightarrow> string" where
  "path_suffix p =
     (let name = path_name p; i = rfind name (CHR ''.'')
      in if 0 < i \<and> i < int (length name) - 1 then drop (nat i) name else [])"

definition path_parent :: "path \<Rightarrow> path" where
  "path_parent p = butlast p"

definition relative_to :: "path \<Rightarrow> path \<Rightarrow> error + path" where
  "relative_to p parent =
     (if prefix parent p then Inr (drop (length parent) p) else Inl ValueError)"

section \<open>Images, fonts and the collaborators\<close>

text \<open>
  An image is modelled by its header: size, mode and the Exif orientation tag (\<open>0x0112\<close>),
  when the file carries one. Pixel contents are not modelled; the text drawn into the text
  raster is recorded as the list of \<open>ImageDraw.text\<close> calls.
\<close>

record image =
  width :: int
  height :: int
  mode :: string
  orientation :: "int option"

datatype font = TrueType string int | DefaultFont

record draw_call =
  xy :: "int \<times> int"
  drawn_text :: string
  drawn_font :: font
  fill :: "int \<times> int \<times> int \<times> int"

datatype kwarg = IntArg int | BoolArg bool

record saved_file =
  saved_path :: path
  saved_image :: image
  saved_kwargs :: "(string \<times> kwarg) list"

text \<open>
  What Pillow, pathlib and the file system decide is a parameter of the model: which
  paths are files or directories, what a directory contains, what a path resolves to,
  whether a font file loads, how large a text measures, how large a rotated raster is,
  which mode conversions exist, and whether opening, creating or saving raises.
  \<open>is_file\<close> and \<open>is_dir\<close> answer for every path: the model has no path whose status
  cannot be read. \<open>parse_path\<close> is \<open>Path(s)\<close> and \<open>path_str\<close> is \<open>str(p)\<close>.
\<close>

record env =
  is_file :: "path \<Rightarrow> bool"
  is_dir :: "path \<Rightarrow> bool"
  parse_path :: "string \<Rightarrow> path"
  path_str :: "path \<Rightarrow> string"
  resolve :: "path \<Rightarrow> error + path"
  listing :: "path \<Rightarrow> path list"
  mkdir_error :: "path \<Rightarrow> error option"
  truetype_error :: "string \<Rightarrow> int \<Rightarrow> error option"
  textbbox :: "font \<Rightarrow> string \<Rightarrow> error + (int \<times> int \<times> int \<times> int)"
  rotate_size :: "pyfloat \<Rightarrow> int \<times> int \<Rightarrow> int \<times> int"
  convertible :: "string \<Rightarrow> string \<Rightarrow> bool"
  open_image :: "path \<Rightarrow> error + image"
  save_error :: "path \<Rightarrow> image \<Rightarrow> (string \<times> kwarg) list \<Rightarrow> error option"

subsection \<open>Pillow operations on image headers\<close>

definition exif_transpose :: "image \<Rightarrow> image" where
  \<comment> \<open>\<open>ImageOps.exif_transpose\<close>: orientations 5 to 8 exchange the two axes\<close>
  "exif_transpose img =
     (case orientation img of
        None \<Rightarrow> img
      | Some k \<Rightarrow>
          if k \<in> {5, 6, 7, 8}
          then img\<lparr>width := height img, height := width img, orientation := None\<rparr>
          else if k \<in> {2, 3, 4} then img\<lparr>orientation := None\<rparr>
          else img)"

definition convert :: "env \<Rightarrow> image \<Rightarrow> string \<Rightarrow> error + image" where
  "convert env img m =
     (if m = mode img then Inr img
      else if convertible env (mode img) m then Inr (img\<lparr>mode := m\<rparr>)
      else Inl ValueError)"

definition Image_new :: "string \<Rightarrow> int \<times> int \<Rightarrow> error + image" where
  "Image_new m sz =
     (if fst sz < 0 \<or> snd sz < 0 then Inl ValueError
      else Inr \<lparr>width = fst sz, height = snd sz, mode = m, orientation = None\<rparr>)"

definition rotate_img :: "env \<Rightarrow> image \<Rightarrow> pyfloat \<Rightarrow> image" where
  \<comment> \<open>\<open>Image.rotate(angle, expand=True, ...)\<close>\<close>
  "rotate_img env img angle =
     (let sz = rotate_size env angle (width img, height img)
      in img\<lparr>width := fst sz, height := snd sz\<rparr>)"


definition paste :: "image \<Rightarrow> image \<Rightarrow> int \<times> int \<Rightarrow> image" where
  \<comment> \<open>\<open>dest.paste(src, box, mask)\<close> changes pixels of \<open>dest\<close> only\<close>
  "paste dest src box = dest"

definition alpha_composite :: "image \<Rightarrow> image \<Rightarrow> error + image" where
  "alpha_composite im1 im2 =
     (if mode im1 = ''RGBA'' \<and> mode im2 = ''RGBA''
         \<and> width im1 = width im2 \<and> height im1 = height im2
      then Inr im1 else Inl ValueError)"

definition save :: "env \<Rightarrow> image \<Rightarrow> path \<Rightarrow> (string \<times> kwarg) list \<Rightarrow> error + saved_file" where
  "save env img p kwargs =
     (case save_error env p img kwargs of
        Some e \<Rightarrow> Inl e
      | None \<Rightarrow> Inr \<lparr>saved_path = p, saved_image = img, saved_kwargs = kwargs\<rparr>)"

section \<open>watermark.py\<close>

definition ALLOWED_EXTS :: "string set" where
  "ALLOWED_EXTS = {''.jpg'', ''.jpeg'', ''.png'', ''.webp'', ''.bmp'', ''.tif'', ''.tiff''}"

subsection \<open>find_font\<close>

definition candidates :: "string list" where
  "candidates =
     [''/System/Library/Fonts/PingFang.ttc'',
      ''/System/Library/Fonts/Supplemental/Arial.ttf'',
      ''/Library/Fonts/Arial.ttf'',
      ''/System/Library/Fonts/Supplemental/Arial Unicode.ttf'',
      ''/Library/Fonts/Arial Unicode.ttf'']"

primrec first_candidate :: "env \<Rightarrow> string list \<Rightarrow> string option" where
  "first_candidate env [] = None"
| "first_candidate env (c # cs) =
     (if is_file env (parse_path env c) then Some c else first_candidate env cs)"

definition find_font :: "env \<Rightarrow> string option \<Rightarrow> string option" where
  "find_font env explicit =
     (case explicit of
        Some s \<Rightarrow>
          if s \<noteq> [] \<and> is_file env (parse_path env s)
          then Some (path_str env (parse_path env s))
          else first_candidate env candidates
      | None \<Rightarrow> first_candidate env candidates)"

subsection \<open>add_text_watermark\<close>

definition load_font :: "env \<Rightarrow> string option \<Rightarrow> int \<Rightarrow> font" where
  \<comment> \<open>lines 45 to 48: \<open>truetype(fp, size)\<close> when \<open>fp\<close> is a non-empty string,
      \<open>load_default()\<close> otherwise and when \<open>truetype\<close> raises\<close>
  "load_font env fp sz =
     (case fp of
        None \<Rightarrow> DefaultFont
      | Some s \<Rightarrow>
          if s = [] then DefaultFont
          else (case truetype_error env s sz of
                  None \<Rightarrow> TrueType s sz
                | Some e \<Rightarrow> DefaultFont))"

text \<open>The local variables of lines 43 to 66, for an oriented image of size \<open>(w, h)\<close>.\<close>

record wm_vars =
  v_size :: int
  v_fp :: "string option"
  v_font :: font
  v_tw :: int
  v_th :: int
  v_margin :: int
  v_alpha :: int
  v_shadow_alpha :: int
  v_padding :: int
  v_text_img :: image
  v_draws :: "draw_call list"
  v_rotated :: image
  v_x :: int
  v_y :: int

definition text_layer ::
  "env \<Rightarrow> int \<Rightarrow> int \<Rightarrow> string \<Rightarrow> pyfloat \<Rightarrow> pyfloat \<Rightarrow> pyfloat \<Rightarrow> string option \<Rightarrow> pyfloat
     \<Rightarrow> error + wm_vars" where
  "text_layer env w h text opacity scale margin_ratio font_path angle =
     ebind (int_of_product (min w h) scale) (\<lambda>n.
     let size = max 12 n;
         fp = find_font env font_path;
         font = load_font env fp size
     in
     ebind (textbbox env font text) (\<lambda>bbox.
     let tw = fst (snd (snd bbox)) - fst bbox;
         th = snd (snd (snd bbox)) - fst (snd bbox)
     in
     ebind (int_of_product (min w h) margin_ratio) (\<lambda>margin.
     ebind (int_of_product 255 opacity) (\<lambda>a.
     let alpha = max 0 (min 255 a) in
     ebind (int_of_product alpha (Finite (1 / 2))) (\<lambda>sa.
     let shadow_alpha = max 0 (min 255 sa) in
     ebind (int_of_product size (round_double (1 / 5))) (\<lambda>pd.
     let padding = max 2 pd in
     ebind (Image_new ''RGBA'' (tw + padding * 2, th + padding * 2)) (\<lambda>text_img.
     let draws =
           [\<lparr>xy = (padding + 1, padding + 1), drawn_text = text, drawn_font = font,
             fill = (0, 0, 0, shadow_alpha)\<rparr>,
            \<lparr>xy = (padding, padding), drawn_text = text, drawn_font = font,
             fill = (255, 255, 255, alpha)\<rparr>];
         rotated = rotate_img env text_img angle;
         x = max 0 (w - width rotated - margin);
         y = max 0 (h - height rotated - margin)
     in Inr \<lparr>v_size = size, v_fp = fp, v_font = font, v_tw = tw, v_th = th,
             v_margin = margin, v_alpha = alpha, v_shadow_alpha = shadow_alpha,
             v_padding = padding, v_text_img = text_img, v_draws = draws,
             v_rotated = rotated, v_x = x, v_y = y\<rparr>)))))))"

definition wm_composite ::
  "env \<Rightarrow> image \<Rightarrow> string \<Rightarrow> pyfloat \<Rightarrow> pyfloat \<Rightarrow> pyfloat \<Rightarrow> string option \<Rightarrow> pyfloat
     \<Rightarrow> error + image" where
  \<comment> \<open>lines 36 to 69: the value of \<open>combined\<close>\<close>
  "wm_composite env img0 text opacity scale margin_ratio font_path angle =
     (let img = exif_transpose img0; w = width img; h = height img in
      ebind (convert env img ''RGBA'') (\<lambda>base.
      ebind (Image_new ''RGBA'' (w, h)) (\<lambda>txt_layer.
      ebind (text_layer env w h text opacity scale margin_ratio font_path angle) (\<lambda>v.
      alpha_composite base (paste txt_layer (v_rotated v) (v_x v, v_y v))))))"

definition add_text_watermark ::
  "env \<Rightarrow> image \<Rightarrow> string \<Rightarrow> pyfloat \<Rightarrow> pyfloat \<Rightarrow> pyfloat \<Rightarrow> string option \<Rightarrow> pyfloat
     \<Rightarrow> error + image" where
  "add_text_watermark env img0 text opacity scale margin_ratio font_path angle =
     (let img = exif_transpose img0 in
      ebind (wm_composite env img0 text opacity scale margin_ratio font_path angle) (\<lambda>combined.
      if mode img = ''RGBA'' then Inr combined
      else if mode img \<in> {''RGB'', ''L''} then convert env combined (mode img)
      else (case convert env combined ''RGB'' of
              Inr c \<Rightarrow> Inr c
            | Inl e \<Rightarrow> Inr combined)))"

subsection \<open>The directory scan and the per-file step\<close>

definition is_image_file :: "env \<Rightarrow> path \<Rightarrow> bool" where
  "is_image_file env p \<longleftrightarrow> is_file env p \<and> str_lower (path_suffix p) \<in> ALLOWED_EXTS"

definition is_subpath :: "env \<Rightarrow> path \<Rightarrow> path \<Rightarrow> bool" where
  "is_subpath env p parent =
     (case ebind (resolve env p) (\<lambda>rp.
           ebind (resolve env parent) (\<lambda>rparent. relative_to rp rparent)) of
        Inr r \<Rightarrow> True
      | Inl e \<Rightarrow> False)"

definition process_image_file ::
  "env \<Rightarrow> path \<Rightarrow> path \<Rightarrow> string \<Rightarrow> pyfloat \<Rightarrow> pyfloat \<Rightarrow> pyfloat \<Rightarrow> string option \<Rightarrow> pyfloat
     \<Rightarrow> error + saved_file" where
  "process_image_file env in_path out_path text opacity scale margin_ratio font_path angle =
     (case mkdir_error env (path_parent out_path) of
        Some e \<Rightarrow> Inl e
      | None \<Rightarrow>
          ebind (open_image env in_path) (\<lambda>im.
          ebind (add_text_watermark env im text opacity scale margin_ratio font_path angle) (\<lambda>wm.
          let ext = str_lower (path_suffix in_path) in
          if ext \<in> {''.jpg'', ''.jpeg''}
          then ebind (convert env wm ''RGB'') (\<lambda>wm'.
                 save env wm' out_path [(''quality'', IntArg 90), (''optimize'', BoolArg True)])
          else save env wm out_path [])))"

text \<open>
  \<open>rglob("*")\<close> yields every entry below the directory, \<open>glob("*")\<close> its direct
  children; \<open>listing env d\<close> names the entries below \<open>d\<close> relative to \<open>d\<close>.
  The source's \<open>files\<close> is a generator that the loop of \<open>main\<close> consumes; the model
  computes its list first. \<open>scan\<close> is the generator expression over the entries: the
  filter, then the pair of the entry and its mirrored destination.
\<close>

definition rglob :: "env \<Rightarrow> path \<Rightarrow> path list" where
  "rglob env d = map (\<lambda>r. d @ r) (listing env d)"

definition glob :: "env \<Rightarrow> path \<Rightarrow> path list" where
  "glob env d = map (\<lambda>r. d @ r) (filter (\<lambda>r. length r = 1) (listing env d))"

primrec scan :: "env \<Rightarrow> path \<Rightarrow> path \<Rightarrow> path list \<Rightarrow> error + (path \<times> path) list" where
  "scan env input_dir output_dir [] = Inr []"
| "scan env input_dir output_dir (p # ps) =
     (if is_image_file env p \<and> \<not> is_subpath env p output_dir
      then ebind (relative_to p input_dir) (\<lambda>rel.
           ebind (scan env input_dir output_dir ps) (\<lambda>rest.
           Inr ((p, output_dir @ rel) # rest)))
      else scan env input_dir output_dir ps)"

definition files :: "env \<Rightarrow> path \<Rightarrow> path \<Rightarrow> bool \<Rightarrow> error + (path \<times> path) list" where
  \<comment> \<open>lines 125 to 129\<close>
  "files env input_dir output_dir no_recursive =
     scan env input_dir output_dir
       (if \<not> no_recursive then rglob env input_dir else glob env input_dir)"

subsection \<open>main\<close>








section \<open>A sample environment\<close>

text \<open>
  A small file system and imaging back end on which the definitions above evaluate: the
  directory \<open>in\<close> holds two images, a text file, an unreadable \<open>.jpeg\<close> and an output
  directory \<open>in/watermarked\<close> with an earlier result. No font file exists, every text
  measures 6 by 11 pixels per character, and rotation is given for multiples of 90 degrees
  (a bounding square stands for every other angle).
\<close>

definition sample_listing :: "path list" where
  "sample_listing =
     [[''a.png''], [''sub''], [''sub'', ''b.JPG''], [''notes.txt''], [''bad.jpeg''],
      [''watermarked''], [''watermarked'', ''c.png'']]"

definition sample_rotate_size :: "pyfloat \<Rightarrow> int \<times> int \<Rightarrow> int \<times> int" where
  "sample_rotate_size a sz =
     (if a = Finite 0 \<or> a = Finite 180 then sz
      else if a = Finite 90 \<or> a = Finite 270 then (snd sz, fst sz)
      else (fst sz + snd sz, fst sz + snd sz))"

definition sample_open :: "path \<Rightarrow> error + image" where
  "sample_open p =
     (if p = [''in'', ''a.png'']
      then Inr \<lparr>width = 1000, height = 800, mode = ''RGB'', orientation = None\<rparr>
      else if p = [''in'', ''sub'', ''b.JPG'']
      then Inr \<lparr>width = 4000, height = 3000, mode = ''RGB'', orientation = Some 6\<rparr>
      else if p = [''in'', ''watermarked'', ''c.png'']
      then Inr \<lparr>width = 1000, height = 800, mode = ''RGB'', orientation = None\<rparr>
      else Inl UnidentifiedImageError)"


definition sample_env :: env where
  "sample_env =
     \<lparr>is_file = (\<lambda>p. p \<in> {[''in'', ''a.png''], [''in'', ''sub'', ''b.JPG''], [''in'', ''notes.txt''],
                           [''in'', ''bad.jpeg''], [''in'', ''watermarked'', ''c.png'']}),
      is_dir = (\<lambda>p. p \<in> {[''in''], [''in'', ''sub''], [''in'', ''watermarked'']}),
      parse_path = (\<lambda>s. [s]),
      path_str = concat,
      resolve = Inr,
      listing = (\<lambda>d. if d = [''in''] then sample_listing else []),
      mkdir_error = (\<lambda>p. None),
      truetype_error = (\<lambda>s n. None),
      textbbox = (\<lambda>f t. Inr (0, 0, 6 * int (length t), 11)),
      rotate_size = sample_rotate_size,
      convertible = (\<lambda>a b. b \<in> {''RGBA'', ''RGB'', ''L''}),
      open_image = sample_open,
      save_error = (\<lambda>p img kw. None)\<rparr>"

section \<open>Lemmas about the floating point model\<close>

lemma quotient_of_pos:
  assumes "0 < x" "quotient_of x = (n, d)"
  shows "0 < n" "0 < d" "x = of_int n / of_int d"
proof -
  show d: "0 < d" using assms(2) quotient_of_denom_pos by blast
  show x: "x = of_int n / of_int d" using assms(2) quotient_of_div by blast
  show "0 < n" using assms(1) d x by (simp add: zero_less_divide_iff)
qed

lemma ilog2_bounds:
  assumes "0 < x"
  shows "2 powi ilog2 x \<le> x" and "x < 2 powi (ilog2 x + 1)"
proof -
  obtain n d where q: "quotient_of x = (n, d)" by (cases "quotient_of x")
  note nd = quotient_of_pos[OF assms q]
  define k where "k = bitlen n - bitlen d"
  have bn: "2 ^ nat (bitlen n - 1) \<le> n" "n < 2 ^ nat (bitlen n)"
    using bitlen_bounds[OF nd(1)] by auto
  have bd: "2 ^ nat (bitlen d - 1) \<le> d" "d < 2 ^ nat (bitlen d)"
    using bitlen_bounds[OF nd(2)] by auto
  have bn1: "1 \<le> bitlen n" using nd(1) by (simp add: bitlen_alt_def) 
  have bd1: "1 \<le> bitlen d" using nd(2) by (simp add: bitlen_alt_def)
  have n_lo: "(2::rat) powi (bitlen n - 1) \<le> of_int n"
  proof -
    have "(of_int (2 ^ nat (bitlen n - 1)) :: rat) \<le> of_int n" using bn(1) by (simp only: of_int_le_iff)
    then show ?thesis using bn1 by (simp add: power_int_def)
  qed
  have n_hi: "of_int n < (2::rat) powi (bitlen n)"
  proof -
    have "(of_int n :: rat) < of_int (2 ^ nat (bitlen n))" using bn(2) by (simp only: of_int_less_iff)
    then show ?thesis using bn1 by (simp add: power_int_def)
  qed
  have d_lo: "(2::rat) powi (bitlen d - 1) \<le> of_int d"
  proof -
    have "(of_int (2 ^ nat (bitlen d - 1)) :: rat) \<le> of_int d" using bd(1) by (simp only: of_int_le_iff)
    then show ?thesis using bd1 by (simp add: power_int_def)
  qed
  have d_hi: "of_int d < (2::rat) powi (bitlen d)"
  proof -
    have "(of_int d :: rat) < of_int (2 ^ nat (bitlen d))" using bd(2) by (simp only: of_int_less_iff)
    then show ?thesis using bd1 by (simp add: power_int_def)
  qed
  have dpos: "(0::rat) < of_int d" using nd(2) by simp
  have lo: "(2::rat) powi (k - 1) \<le> x"
  proof -
    have "(2::rat) powi (k - 1) * of_int d \<le> 2 powi (k - 1) * 2 powi (bitlen d)"
      using d_hi by (intro mult_left_mono) auto
    also have "\<dots> = 2 powi (bitlen n - 1)"
      by (simp add: k_def power_int_add[symmetric])
    also have "\<dots> \<le> of_int n" by (rule n_lo)
    finally show ?thesis using dpos nd(3) by (simp add: pos_le_divide_eq)
  qed
  have hi: "x < (2::rat) powi (k + 1)"
  proof -
    have "of_int n < (2::rat) powi (bitlen n)" by (rule n_hi)
    also have "\<dots> = 2 powi (k + 1) * 2 powi (bitlen d - 1)"
      by (simp add: k_def power_int_add[symmetric])
    also have "\<dots> \<le> 2 powi (k + 1) * of_int d"
      using d_lo by (intro mult_left_mono) auto
    finally show ?thesis using dpos nd(3) by (simp add: pos_divide_less_eq)
  qed
  have il: "ilog2 x = (if 2 powi k \<le> x then k else k - 1)"
    by (simp add: ilog2_def q k_def Let_def)
  show "2 powi ilog2 x \<le> x" using lo by (simp add: il)
  show "x < 2 powi (ilog2 x + 1)" using hi by (auto simp add: il not_le)
qed

lemma ulp_exp_le:
  assumes "x \<noteq> 0" "\<bar>x\<bar> < 2 powi (k + 53)" "- 1074 \<le> k"
  shows "ulp_exp x \<le> k"
proof -
  have pos: "0 < \<bar>x\<bar>" using assms(1) by simp
  have "ilog2 \<bar>x\<bar> < k + 53"
  proof (rule ccontr)
    assume "\<not> ilog2 \<bar>x\<bar> < k + 53"
    then have "(2::rat) powi (k + 53) \<le> 2 powi ilog2 \<bar>x\<bar>"
      by (intro power_int_increasing) auto
    also have "\<dots> \<le> \<bar>x\<bar>" by (rule ilog2_bounds(1)[OF pos])
    finally show False using assms(2) by simp
  qed
  then show ?thesis using assms(3) by (simp add: ulp_exp_def)
qed

lemma round_half_even_le: "y \<le> of_int N \<Longrightarrow> round_half_even y \<le> N"
proof -
  assume a: "y \<le> of_int N"
  have f: "\<lfloor>y\<rfloor> \<le> N" using a by (simp add: floor_le_iff) 
  show ?thesis
  proof (cases "y = of_int N")
    case True
    then show ?thesis by (simp add: round_half_even_def)
  next
    case False
    then have "y < of_int N" using a by simp
    then have "\<lfloor>y\<rfloor> < N" by (simp add: floor_less_iff)
    then show ?thesis by (simp add: round_half_even_def Let_def)
  qed
qed

lemma round_half_even_ge: "of_int N \<le> y \<Longrightarrow> N \<le> round_half_even y"
proof -
  assume "of_int N \<le> y"
  then have "N \<le> \<lfloor>y\<rfloor>" by (simp add: le_floor_iff)
  then show ?thesis by (simp add: round_half_even_def Let_def)
qed

lemma grid_rescale:
  assumes "e \<le> k"
  shows "(of_int N :: rat) * 2 powi k = of_int (N * 2 ^ nat (k - e)) * 2 powi e"
proof -
  have "(2::rat) powi k = 2 powi (k - e) * 2 powi e"
    by (simp add: power_int_add[symmetric])
  also have "(2::rat) powi (k - e) = 2 ^ nat (k - e)"
    using assms by (simp add: power_int_def)
  finally show ?thesis by simp
qed

lemma round_val_le:
  assumes "x \<le> of_int N * 2 powi k" "ulp_exp x \<le> k"
  shows "round_val x \<le> of_int N * 2 powi k"
proof -
  define e where "e = ulp_exp x"
  define N' where "N' = N * 2 ^ nat (k - e)"
  have p: "(0::rat) < 2 powi e" by simp
  have g: "(of_int N :: rat) * 2 powi k = of_int N' * 2 powi e"
    unfolding N'_def using assms(2) by (intro grid_rescale) (simp add: e_def)
  have "x / 2 powi e \<le> of_int N'"
    using assms(1) p unfolding g by (simp add: pos_divide_le_eq)
  then have "round_half_even (x / 2 powi e) \<le> N'" by (rule round_half_even_le)
  then have "(of_int (round_half_even (x / 2 powi e)) :: rat) \<le> of_int N'"
    by (simp only: of_int_le_iff)
  then have "(of_int (round_half_even (x / 2 powi e)) :: rat) * 2 powi e \<le> of_int N' * 2 powi e"
    using p by (simp only: mult_le_cancel_right_pos)
  then show ?thesis unfolding g round_val_def e_def .
qed

lemma round_val_ge:
  assumes "of_int N * 2 powi k \<le> x" "ulp_exp x \<le> k"
  shows "of_int N * 2 powi k \<le> round_val x"
proof -
  define e where "e = ulp_exp x"
  define N' where "N' = N * 2 ^ nat (k - e)"
  have p: "(0::rat) < 2 powi e" by simp
  have g: "(of_int N :: rat) * 2 powi k = of_int N' * 2 powi e"
    unfolding N'_def using assms(2) by (intro grid_rescale) (simp add: e_def)
  have "of_int N' \<le> x / 2 powi e"
    using assms(1) p unfolding g by (simp add: pos_le_divide_eq)
  then have "N' \<le> round_half_even (x / 2 powi e)" by (rule round_half_even_ge)
  then have "(of_int N' :: rat) \<le> of_int (round_half_even (x / 2 powi e))"
    by (simp only: of_int_le_iff)
  then have "(of_int N' :: rat) * 2 powi e \<le> of_int (round_half_even (x / 2 powi e)) * 2 powi e"
    using p by (simp only: mult_le_cancel_right_pos)
  then show ?thesis unfolding g round_val_def e_def .
qed

lemma round_double_between:
  assumes lo: "of_int M * 2 powi j \<le> x" and hi: "x \<le> of_int N * 2 powi k"
    and mag: "\<bar>x\<bar> < 2 powi (j + 53)" "\<bar>x\<bar> < 2 powi (k + 53)"
    and exps: "- 1074 \<le> j" "- 1074 \<le> k"
    and fin: "- overflow_bound < of_int M * 2 powi j" "of_int N * 2 powi k < overflow_bound"
  shows "\<exists>v. round_double x = Finite v \<and> of_int M * 2 powi j \<le> v \<and> v \<le> of_int N * 2 powi k"
proof (cases "x = 0")
  case True
  then show ?thesis using lo hi by (simp add: round_double_def)
next
  case False
  have a: "of_int M * 2 powi j \<le> round_val x"
    using lo ulp_exp_le[OF False mag(1) exps(1)] by (rule round_val_ge)
  have b: "round_val x \<le> of_int N * 2 powi k"
    using hi ulp_exp_le[OF False mag(2) exps(2)] by (rule round_val_le)
  have "round_double x = Finite (round_val x)"
    using a b fin False by (simp add: round_double_def Let_def)
  then show ?thesis using a b by simp
qed

lemma round_double_exact:
  assumes m: "\<bar>m\<bar> < 2 ^ 53" and k: "- 1074 \<le> k"
    and fin: "\<bar>of_int m * 2 powi k\<bar> < overflow_bound"
  shows "round_double (of_int m * 2 powi k) = Finite (of_int m * 2 powi k)"
proof -
  define x :: rat where "x = of_int m * 2 powi k"
  have "(of_int \<bar>m\<bar> :: rat) < of_int (2 ^ 53)" using m by (simp only: of_int_less_iff)
  then have "\<bar>of_int m :: rat\<bar> < 2 ^ 53" by simp
  then have "\<bar>of_int m :: rat\<bar> * 2 powi k < 2 ^ 53 * 2 powi k"
    by (simp only: mult_less_cancel_right_pos zero_less_power_int zero_less_numeral)
  also have "\<dots> = (2::rat) powi (k + 53)"
    by (simp add: power_int_add)
  finally have mag: "\<bar>x\<bar> < 2 powi (k + 53)"
    by (simp add: x_def abs_mult)
  have f: "- overflow_bound < of_int m * 2 powi k" "of_int m * 2 powi k < overflow_bound"
    using fin by (simp_all add: abs_less_iff)
  have "\<exists>v. round_double x = Finite v \<and> of_int m * 2 powi k \<le> v \<and> v \<le> of_int m * 2 powi k"
    by (rule round_double_between[OF _ _ mag mag k k f]) (simp_all add: x_def)
  then show ?thesis by (auto simp: x_def)
qed

lemma overflow_bound_gt: "2 ^ 53 \<le> overflow_bound"
  by (simp add: overflow_bound_def)

lemma float_of_int_exact:
  assumes "\<bar>n\<bar> < 2 ^ 53"
  shows "float_of_int n = Inr (Finite (of_int n))"
proof -
  have "(of_int \<bar>n\<bar> :: rat) < of_int (2 ^ 53)" using assms by (simp only: of_int_less_iff)
  then have "\<bar>of_int n :: rat\<bar> < overflow_bound" using overflow_bound_gt by simp
  then have "round_double (of_int n * 2 powi 0) = Finite (of_int n * 2 powi 0)"
    using assms by (intro round_double_exact) simp_all
  then show ?thesis by (simp add: float_of_int_def)
qed

lemma int_of_product_finite:
  assumes "\<bar>n\<bar> < 2 ^ 53"
  shows "int_of_product n (Finite s) = py_int (round_double (of_int n * s))"
  by (simp add: int_of_product_def float_of_int_exact[OF assms] ebind_def)

lemma int_of_product_half:
  assumes "0 \<le> a" "a \<le> 255"
  shows "int_of_product a (Finite (1 / 2)) = Inr (a div 2)"
proof -
  have a53: "\<bar>a\<bar> < 2 ^ 53" using assms by simp
  have small: "\<bar>of_int a * 2 powi (- 1) :: rat\<bar> < overflow_bound"
  proof -
    have "\<bar>of_int a * 2 powi (- 1) :: rat\<bar> \<le> 2 ^ 53" using assms by (simp add: power_int_minus)
    then show ?thesis using overflow_bound_gt by (simp add: overflow_bound_def)
  qed
  have "round_double (of_int a * 2 powi (- 1)) = Finite (of_int a * 2 powi (- 1))"
    using a53 small by (intro round_double_exact) simp_all
  then have r: "round_double (of_int a / 2) = Finite (of_int a / 2)"
    by (simp add: power_int_minus field_simps)
  have "\<lfloor>(of_int a :: rat) / of_int 2\<rfloor> = a div 2" by (rule floor_divide_of_int_eq)
  then have "py_trunc (of_int a / 2) = a div 2" using assms(1) by (simp add: py_trunc_def)
  then show ?thesis by (simp add: int_of_product_finite[OF a53] r py_int_def)
qed

lemma round_double_eq_round_val:
  assumes "x \<noteq> 0" "\<bar>round_val x\<bar> \<le> 2 ^ 53"
  shows "round_double x = Finite (round_val x)"
proof -
  have "\<bar>round_val x\<bar> < overflow_bound"
    using assms(2) by (simp add: overflow_bound_def)
  then show ?thesis using assms(1) by (simp add: round_double_def Let_def abs_less_iff)
qed

lemma round_val_fifth: "round_val (1 / 5) = 3602879701896397 / 18014398509481984"
  by code_simp

lemma round_double_fifth: "round_double (1 / 5) = Finite (3602879701896397 / 18014398509481984)"
proof -
  have "round_double (1 / 5) = Finite (round_val (1 / 5))"
    by (rule round_double_eq_round_val) (simp_all add: round_val_fifth)
  then show ?thesis by (simp only: round_val_fifth)
qed

lemma int_of_product_fifth:
  assumes "0 \<le> n" "n < 2 ^ 50"
  shows "int_of_product n (round_double (1 / 5)) = Inr (n div 5)"
proof -
  define c :: rat where "c = 3602879701896397 / 18014398509481984"
  define S :: rat where "S = of_int n"
  define q where "q = n div 5"
  define Q :: rat where "Q = of_int q"
  have n53: "\<bar>n\<bar> < 2 ^ 53" using assms by simp
  have "(of_int n :: rat) < of_int (2 ^ 50)" using assms(2) by (simp only: of_int_less_iff)
  then have S_hi: "S < 1125899906842624" by (simp add: S_def)
  have S_lo: "0 \<le> S" using assms(1) by (simp add: S_def)
  have "5 * q \<le> n" "n \<le> 5 * q + 4" by (simp_all add: q_def)
  then have "(of_int (5 * q) :: rat) \<le> of_int n" "(of_int n :: rat) \<le> of_int (5 * q + 4)"
    by (simp_all only: of_int_le_iff)
  then have SQ: "5 * Q \<le> S" "S \<le> 5 * Q + 4" by (simp_all add: S_def Q_def)
  have Q_lo: "0 \<le> Q" using assms(1) by (simp add: Q_def q_def)
  have lo: "Q \<le> S * c" using SQ S_lo by (simp add: c_def)
  have hi: "S * c \<le> (8 * Q + 7) / 8" using SQ S_lo S_hi by (simp add: c_def)
  have mag: "\<bar>S * c\<bar> < 1125899906842624" using S_lo S_hi by (simp add: c_def abs_mult)
  have qb: "Q < 1125899906842624" using SQ S_hi S_lo by simp
  have "\<exists>v. round_double (S * c) = Finite v
           \<and> of_int q * 2 powi 0 \<le> v \<and> v \<le> of_int (8 * q + 7) * 2 powi (- 3)"
  proof (rule round_double_between)
    show "of_int q * 2 powi 0 \<le> S * c" using lo by (simp add: Q_def)
    show "S * c \<le> of_int (8 * q + 7) * 2 powi (- 3)" using hi by (simp add: Q_def power_int_minus)
    show "\<bar>S * c\<bar> < 2 powi (0 + 53)" using mag by simp
    show "\<bar>S * c\<bar> < 2 powi (- 3 + 53)" using mag by simp
    show "- overflow_bound < of_int q * 2 powi 0"
      using Q_lo by (simp add: Q_def overflow_bound_def)
    show "of_int (8 * q + 7) * 2 powi (- 3) < overflow_bound"
      using qb by (simp add: Q_def overflow_bound_def power_int_minus)
  qed simp_all
  then obtain v where v: "round_double (S * c) = Finite v" "Q \<le> v" "v \<le> (8 * Q + 7) / 8"
    by (auto simp: Q_def power_int_minus)
  have "\<lfloor>v\<rfloor> = q"
  proof (rule floor_unique)
    show "of_int q \<le> v" using v(2) by (simp add: Q_def)
    show "v < of_int q + 1" using v(3) by (simp add: Q_def)
  qed
  then have "py_trunc v = n div 5" using v(2) Q_lo by (simp add: py_trunc_def q_def)
  then show ?thesis
    using v(1) by (simp add: round_double_fifth int_of_product_finite[OF n53] c_def S_def py_int_def)
qed

lemma py_trunc_dyadic:
  "py_trunc (of_int a / 2 ^ k) = (if 0 \<le> a then a div 2 ^ k else - ((- a) div 2 ^ k))"
proof -
  have f: "\<lfloor>(of_int b :: rat) / 2 ^ k\<rfloor> = b div 2 ^ k" for b
    using floor_divide_of_int_eq[of b "2 ^ k", where ?'a = rat] by simp
  show ?thesis
  proof (cases "0 \<le> a")
    case True
    then show ?thesis by (simp add: py_trunc_def f)
  next
    case False
    then have neg: "(of_int a :: rat) / 2 ^ k < 0" by (simp add: divide_neg_pos)
    have "\<lceil>(of_int a :: rat) / 2 ^ k\<rceil> = - \<lfloor>(of_int (- a) :: rat) / 2 ^ k\<rfloor>"
      by (simp add: ceiling_def)
    then show ?thesis using False neg by (simp add: py_trunc_def f del: of_int_minus)
  qed
qed

lemma int_of_product_dyadic:
  assumes "\<bar>n\<bar> < 2 ^ 53" "\<bar>n * m\<bar> < 2 ^ 53" "k \<le> 1074"
  shows "int_of_product n (Finite (of_int m / 2 ^ k)) =
         Inr (if 0 \<le> n * m then n * m div 2 ^ k else - ((- (n * m)) div 2 ^ k))"
proof -
  have "(of_int \<bar>n * m\<bar> :: rat) < of_int (2 ^ 53)" using assms(2) by (simp only: of_int_less_iff)
  then have a: "\<bar>of_int (n * m) :: rat\<bar> < 2 ^ 53" by simp
  have "\<bar>of_int (n * m) * 2 powi (- int k) :: rat\<bar> = \<bar>of_int (n * m)\<bar> * 2 powi (- int k)"
    by (simp add: abs_mult)
  also have "\<dots> \<le> \<bar>of_int (n * m)\<bar> * 1"
    by (intro mult_left_mono) (simp_all add: power_int_minus inverse_le_1_iff)
  also have "\<dots> < overflow_bound" using a by (simp add: overflow_bound_def)
  finally have fin: "\<bar>of_int (n * m) * 2 powi (- int k) :: rat\<bar> < overflow_bound" .
  have "round_double (of_int (n * m) * 2 powi (- int k)) = Finite (of_int (n * m) * 2 powi (- int k))"
    using assms(2,3) fin by (intro round_double_exact) simp_all
  then have "round_double (of_int n * (of_int m / 2 ^ k)) = Finite (of_int (n * m) / 2 ^ k)"
    by (simp add: power_int_minus field_simps)
  then show ?thesis
    by (simp only: int_of_product_finite[OF assms(1)] py_int_def pyfloat.case py_trunc_dyadic)
qed

lemma round_double_near_ints:
  assumes "\<bar>x\<bar> < 2 ^ 53"
  shows "\<exists>p. round_double x = Finite p \<and> of_int \<lfloor>x\<rfloor> \<le> p \<and> p \<le> of_int \<lceil>x\<rceil>"
proof -
  have mag: "\<bar>x\<bar> < 2 powi (0 + 53)" using assms by simp
  have lo: "- (2 ^ 53) \<le> (of_int \<lfloor>x\<rfloor> :: rat)"
  proof -
    have "- (2 ^ 53) \<le> x" using assms by (simp add: abs_less_iff)
    then have "of_int (- (2 ^ 53)) \<le> x" by simp
    then have "- (2 ^ 53) \<le> \<lfloor>x\<rfloor>" by (simp only: le_floor_iff)
    then have "(of_int (- (2 ^ 53)) :: rat) \<le> of_int \<lfloor>x\<rfloor>" by (simp only: of_int_le_iff)
    then show ?thesis by simp
  qed
  have hi: "(of_int \<lceil>x\<rceil> :: rat) \<le> 2 ^ 53"
  proof -
    have "x \<le> of_int (2 ^ 53)" using assms by (simp add: abs_less_iff)
    then have "\<lceil>x\<rceil> \<le> 2 ^ 53" by (simp only: ceiling_le_iff)
    then have "(of_int \<lceil>x\<rceil> :: rat) \<le> of_int (2 ^ 53)" by (simp only: of_int_le_iff)
    then show ?thesis by simp
  qed
  have "\<exists>p. round_double x = Finite p
          \<and> of_int \<lfloor>x\<rfloor> * 2 powi 0 \<le> p \<and> p \<le> of_int \<lceil>x\<rceil> * 2 powi 0"
  proof (rule round_double_between[OF _ _ mag mag])
    show "- overflow_bound < of_int \<lfloor>x\<rfloor> * 2 powi 0"
      using lo by (simp add: overflow_bound_def)
    show "of_int \<lceil>x\<rceil> * 2 powi 0 < overflow_bound"
      using hi by (simp add: overflow_bound_def)
  qed simp_all
  then show ?thesis by simp
qed

lemma py_int_Inr: "py_int f = Inr n \<longleftrightarrow> (\<exists>p. f = Finite p \<and> n = py_trunc p)"
  by (cases f) (auto simp: py_int_def)

section \<open>Lemmas about add_text_watermark\<close>

lemma ebind_Inr_iff: "ebind m f = Inr y \<longleftrightarrow> (\<exists>x. m = Inr x \<and> f x = Inr y)"
  by (cases m) (simp_all add: ebind_def)

lemma text_layer_Inr:
  "text_layer env w h text opacity scale margin_ratio font_path angle = Inr v \<longleftrightarrow>
   (\<exists>n bbox margin a sa pd text_img.
      int_of_product (min w h) scale = Inr n
    \<and> textbbox env (load_font env (find_font env font_path) (max 12 n)) text = Inr bbox
    \<and> int_of_product (min w h) margin_ratio = Inr margin
    \<and> int_of_product 255 opacity = Inr a
    \<and> int_of_product (max 0 (min 255 a)) (Finite (1 / 2)) = Inr sa
    \<and> int_of_product (max 12 n) (round_double (1 / 5)) = Inr pd
    \<and> Image_new ''RGBA'' (fst (snd (snd bbox)) - fst bbox + max 2 pd * 2,
                           snd (snd (snd bbox)) - fst (snd bbox) + max 2 pd * 2) = Inr text_img
    \<and> \<lparr>v_size = max 12 n, v_fp = find_font env font_path,
        v_font = load_font env (find_font env font_path) (max 12 n),
        v_tw = fst (snd (snd bbox)) - fst bbox,
        v_th = snd (snd (snd bbox)) - fst (snd bbox),
        v_margin = margin, v_alpha = max 0 (min 255 a),
        v_shadow_alpha = max 0 (min 255 sa), v_padding = max 2 pd,
        v_text_img = text_img,
        v_draws =
          [\<lparr>xy = (max 2 pd + 1, max 2 pd + 1), drawn_text = text,
            drawn_font = load_font env (find_font env font_path) (max 12 n),
            fill = (0, 0, 0, max 0 (min 255 sa))\<rparr>,
           \<lparr>xy = (max 2 pd, max 2 pd), drawn_text = text,
            drawn_font = load_font env (find_font env font_path) (max 12 n),
            fill = (255, 255, 255, max 0 (min 255 a))\<rparr>],
        v_rotated = rotate_img env text_img angle,
        v_x = max 0 (w - width (rotate_img env text_img angle) - margin),
        v_y = max 0 (h - height (rotate_img env text_img angle) - margin)\<rparr> = v)"
  unfolding text_layer_def Let_def ebind_Inr_iff by (simp only: sum.inject ex_simps)

lemma text_layer_fields:
  assumes "text_layer env w h text opacity scale margin_ratio font_path angle = Inr v"
  obtains n bbox margin a sa pd where
    "int_of_product (min w h) scale = Inr n"
    "textbbox env (v_font v) text = Inr bbox"
    "int_of_product (min w h) margin_ratio = Inr margin"
    "int_of_product 255 opacity = Inr a"
    "int_of_product (v_alpha v) (Finite (1 / 2)) = Inr sa"
    "int_of_product (v_size v) (round_double (1 / 5)) = Inr pd"
    "Image_new ''RGBA'' (v_tw v + v_padding v * 2, v_th v + v_padding v * 2) = Inr (v_text_img v)"
    "v_size v = max 12 n"
    "v_fp v = find_font env font_path"
    "v_font v = load_font env (v_fp v) (v_size v)"
    "v_tw v = fst (snd (snd bbox)) - fst bbox"
    "v_th v = snd (snd (snd bbox)) - fst (snd bbox)"
    "v_margin v = margin"
    "v_alpha v = max 0 (min 255 a)"
    "v_shadow_alpha v = max 0 (min 255 sa)"
    "v_padding v = max 2 pd"
    "v_draws v =
       [\<lparr>xy = (v_padding v + 1, v_padding v + 1), drawn_text = text, drawn_font = v_font v,
         fill = (0, 0, 0, v_shadow_alpha v)\<rparr>,
        \<lparr>xy = (v_padding v, v_padding v), drawn_text = text, drawn_font = v_font v,
         fill = (255, 255, 255, v_alpha v)\<rparr>]"
    "v_rotated v = rotate_img env (v_text_img v) angle"
    "v_x v = max 0 (w - width (v_rotated v) - v_margin v)"
    "v_y v = max 0 (h - height (v_rotated v) - v_margin v)"
proof -
  from assms[unfolded text_layer_Inr] obtain n bbox margin a sa pd text_img where
    f: "int_of_product (min w h) scale = Inr n"
      "textbbox env (load_font env (find_font env font_path) (max 12 n)) text = Inr bbox"
      "int_of_product (min w h) margin_ratio = Inr margin"
      "int_of_product 255 opacity = Inr a"
      "int_of_product (max 0 (min 255 a)) (Finite (1 / 2)) = Inr sa"
      "int_of_product (max 12 n) (round_double (1 / 5)) = Inr pd"
      "Image_new ''RGBA'' (fst (snd (snd bbox)) - fst bbox + max 2 pd * 2,
                           snd (snd (snd bbox)) - fst (snd bbox) + max 2 pd * 2) = Inr text_img"
    and veq: "\<lparr>v_size = max 12 n, v_fp = find_font env font_path,
        v_font = load_font env (find_font env font_path) (max 12 n),
        v_tw = fst (snd (snd bbox)) - fst bbox,
        v_th = snd (snd (snd bbox)) - fst (snd bbox),
        v_margin = margin, v_alpha = max 0 (min 255 a),
        v_shadow_alpha = max 0 (min 255 sa), v_padding = max 2 pd,
        v_text_img = text_img,
        v_draws =
          [\<lparr>xy = (max 2 pd + 1, max 2 pd + 1), drawn_text = text,
            drawn_font = load_font env (find_font env font_path) (max 12 n),
            fill = (0, 0, 0, max 0 (min 255 sa))\<rparr>,
           \<lparr>xy = (max 2 pd, max 2 pd), drawn_text = text,
            drawn_font = load_font env (find_font env font_path) (max 12 n),
            fill = (255, 255, 255, max 0 (min 255 a))\<rparr>],
        v_rotated = rotate_img env text_img angle,
        v_x = max 0 (w - width (rotate_img env text_img angle) - margin),
        v_y = max 0 (h - height (rotate_img env text_img angle) - margin)\<rparr> = v"
    by (elim exE conjE)
  have s: "v_size v = max 12 n" "v_fp v = find_font env font_path"
    "v_font v = load_font env (find_font env font_path) (max 12 n)"
    "v_tw v = fst (snd (snd bbox)) - fst bbox"
    "v_th v = snd (snd (snd bbox)) - fst (snd bbox)"
    "v_margin v = margin" "v_alpha v = max 0 (min 255 a)"
    "v_shadow_alpha v = max 0 (min 255 sa)" "v_padding v = max 2 pd"
    "v_text_img v = text_img"
    "v_draws v =
          [\<lparr>xy = (max 2 pd + 1, max 2 pd + 1), drawn_text = text,
            drawn_font = load_font env (find_font env font_path) (max 12 n),
            fill = (0, 0, 0, max 0 (min 255 sa))\<rparr>,
           \<lparr>xy = (max 2 pd, max 2 pd), drawn_text = text,
            drawn_font = load_font env (find_font env font_path) (max 12 n),
            fill = (255, 255, 255, max 0 (min 255 a))\<rparr>]"
    "v_rotated v = rotate_img env text_img angle"
    "v_x v = max 0 (w - width (rotate_img env text_img angle) - margin)"
    "v_y v = max 0 (h - height (rotate_img env text_img angle) - margin)"
    unfolding veq[symmetric] by (simp_all only: wm_vars.simps)
  show thesis
    by (rule that[of n bbox margin a sa pd]) (simp_all only: s f)
qed

lemma wm_composite_Inr:
  "wm_composite env img0 text opacity scale margin_ratio font_path angle = Inr combined \<longleftrightarrow>
   (\<exists>base txt_layer v.
      convert env (exif_transpose img0) ''RGBA'' = Inr base
    \<and> Image_new ''RGBA'' (width (exif_transpose img0), height (exif_transpose img0)) = Inr txt_layer
    \<and> text_layer env (width (exif_transpose img0)) (height (exif_transpose img0))
          text opacity scale margin_ratio font_path angle = Inr v
    \<and> alpha_composite base (paste txt_layer (v_rotated v) (v_x v, v_y v)) = Inr combined)"
  unfolding wm_composite_def Let_def ebind_Inr_iff by (simp only: ex_simps)

lemma add_text_watermark_composite:
  assumes "add_text_watermark env img0 text opacity scale margin_ratio font_path angle = Inr out"
  obtains combined where
    "wm_composite env img0 text opacity scale margin_ratio font_path angle = Inr combined"
  using assms unfolding add_text_watermark_def Let_def ebind_Inr_iff by blast

lemma add_text_watermark_vars:
  assumes "add_text_watermark env img0 text opacity scale margin_ratio font_path angle = Inr out"
  obtains v where
    "text_layer env (width (exif_transpose img0)) (height (exif_transpose img0))
       text opacity scale margin_ratio font_path angle = Inr v"
  using add_text_watermark_composite[OF assms] unfolding wm_composite_Inr by blast

lemma convert_Inr:
  assumes "convert env i m = Inr j"
  shows "width j = width i" "height j = height i" "mode j = m"
  using assms by (auto simp: convert_def split: if_splits)

lemma exif_transpose_mode: "mode (exif_transpose img) = mode img"
  by (simp add: exif_transpose_def split: option.splits)

lemma exif_transpose_size:
  "(width (exif_transpose img), height (exif_transpose img)) =
     (if orientation img \<in> {Some 5, Some 6, Some 7, Some 8}
      then (height img, width img) else (width img, height img))"
  by (auto simp: exif_transpose_def split: option.splits)


lemma alpha_composite_Inr:
  assumes "alpha_composite a b = Inr c"
  shows "c = a" "mode a = ''RGBA''" "width b = width a" "height b = height a"
  using assms by (auto simp: alpha_composite_def split: if_splits)

lemma wm_composite_header:
  assumes "wm_composite env img text opacity scale margin_ratio font_path angle = Inr combined"
  shows "width combined = width (exif_transpose img)"
    "height combined = height (exif_transpose img)"
    "mode combined = ''RGBA''"
proof -
  from assms obtain base txt_layer and v :: wm_vars where
    b: "convert env (exif_transpose img) ''RGBA'' = Inr base"
    and c: "alpha_composite base (paste txt_layer (v_rotated v) (v_x v, v_y v)) = Inr combined"
    unfolding wm_composite_Inr by blast
  have eq: "combined = base" using c by (rule alpha_composite_Inr(1))
  show "width combined = width (exif_transpose img)" using convert_Inr(1)[OF b] eq by simp
  show "height combined = height (exif_transpose img)" using convert_Inr(2)[OF b] eq by simp
  show "mode combined = ''RGBA''" using convert_Inr(3)[OF b] eq by simp
qed

lemma add_text_watermark_restore:
  assumes "wm_composite env img text opacity scale margin_ratio font_path angle = Inr combined"
  shows "add_text_watermark env img text opacity scale margin_ratio font_path angle =
           (if mode img = ''RGBA'' then Inr combined
            else if mode img \<in> {''RGB'', ''L''} then convert env combined (mode img)
            else (case convert env combined ''RGB'' of Inr c \<Rightarrow> Inr c | Inl e \<Rightarrow> Inr combined))"
  using assms by (simp add: add_text_watermark_def ebind_def exif_transpose_mode Let_def)

lemma add_text_watermark_header:
  assumes "add_text_watermark env img text opacity scale margin_ratio font_path angle = Inr out"
  shows "width out = width (exif_transpose img)" "height out = height (exif_transpose img)"
proof -
  obtain combined where
    c: "wm_composite env img text opacity scale margin_ratio font_path angle = Inr combined"
    using assms by (rule add_text_watermark_composite)
  note h = wm_composite_header[OF c]
  have r: "(if mode img = ''RGBA'' then Inr combined
            else if mode img \<in> {''RGB'', ''L''} then convert env combined (mode img)
            else (case convert env combined ''RGB'' of Inr c \<Rightarrow> Inr c | Inl e \<Rightarrow> Inr combined))
           = Inr out"
    using assms unfolding add_text_watermark_restore[OF c] .
  have "width out = width combined \<and> height out = height combined"
  proof (cases "mode img = ''RGBA''")
    case True
    then show ?thesis using r by simp
  next
    case False
    note notrgba = this
    show ?thesis
    proof (cases "mode img \<in> {''RGB'', ''L''}")
      case True
      then have "convert env combined (mode img) = Inr out" using r notrgba by simp
      then show ?thesis using convert_Inr by blast
    next
      case False
      show ?thesis
      proof (cases "convert env combined ''RGB''")
        case (Inl e)
        then show ?thesis using r notrgba False by simp
      next
        case (Inr c')
        then have "out = c'" using r notrgba False by simp
        then show ?thesis using convert_Inr[OF Inr] by simp
      qed
    qed
  qed
  then show "width out = width (exif_transpose img)" "height out = height (exif_transpose img)"
    using h by simp_all
qed


lemma first_candidate_None:
  "first_candidate env cs = None \<longleftrightarrow> (\<forall>c \<in> set cs. \<not> is_file env (parse_path env c))"
  by (induction cs) simp_all

lemma find_font_None:
  "find_font env font_path = None \<longleftrightarrow>
     (font_path = None \<or> font_path = Some [] \<or> \<not> is_file env (parse_path env (the font_path)))
     \<and> (\<forall>c \<in> set candidates. \<not> is_file env (parse_path env c))"
  by (cases font_path) (auto simp: find_font_def first_candidate_None)

lemma load_font_fallback:
  assumes "fp = None \<or> (\<exists>s e. fp = Some s \<and> truetype_error env s sz = Some e)"
  shows "load_font env fp sz = DefaultFont"
  using assms by (auto simp: load_font_def)

lemma first_candidate_convertible:
  "first_candidate (env\<lparr>convertible := f\<rparr>) cs = first_candidate env cs"
  by (induction cs) simp_all

lemma find_font_convertible:
  "find_font (env\<lparr>convertible := f\<rparr>) font_path = find_font env font_path"
  by (simp add: find_font_def first_candidate_convertible split: option.splits)

lemma load_font_convertible:
  "load_font (env\<lparr>convertible := f\<rparr>) fp sz = load_font env fp sz"
  by (simp add: load_font_def split: option.splits)

lemma rotate_img_convertible:
  "rotate_img (env\<lparr>convertible := f\<rparr>) i angle = rotate_img env i angle"
  by (simp add: rotate_img_def)

lemma text_layer_convertible:
  "text_layer (env\<lparr>convertible := f\<rparr>) w h text opacity scale margin_ratio font_path angle =
   text_layer env w h text opacity scale margin_ratio font_path angle"
  by (simp add: text_layer_def Let_def find_font_convertible load_font_convertible
      rotate_img_convertible)

section \<open>Lemmas about the per-file step, the scan and the loop\<close>

lemma save_Inr:
  assumes "save env img p kw = Inr saved"
  shows "saved_path saved = p" "saved_image saved = img" "saved_kwargs saved = kw"
  using assms by (auto simp: save_def split: option.splits)

lemma process_image_file_Inr:
  "process_image_file env in_path out_path text opacity scale margin_ratio font_path angle = Inr saved
   \<longleftrightarrow>
   mkdir_error env (path_parent out_path) = None
   \<and> (\<exists>im wm.
         open_image env in_path = Inr im
       \<and> add_text_watermark env im text opacity scale margin_ratio font_path angle = Inr wm
       \<and> (if str_lower (path_suffix in_path) \<in> {''.jpg'', ''.jpeg''}
          then \<exists>wm'. convert env wm ''RGB'' = Inr wm'
                 \<and> save env wm' out_path [(''quality'', IntArg 90), (''optimize'', BoolArg True)]
                     = Inr saved
          else save env wm out_path [] = Inr saved))"
  by (cases "mkdir_error env (path_parent out_path)")
    (simp_all add: process_image_file_def ebind_Inr_iff Let_def)

lemma relative_to_append: "relative_to (d @ r) d = Inr r"
  by (simp add: relative_to_def)

lemma is_subpath_iff:
  "is_subpath env p parent \<longleftrightarrow>
     (\<exists>rp rparent. resolve env p = Inr rp \<and> resolve env parent = Inr rparent \<and> prefix rparent rp)"
proof (cases "resolve env p")
  case (Inl e)
  then show ?thesis by (simp add: is_subpath_def ebind_def)
next
  case p: (Inr rp)
  show ?thesis
  proof (cases "resolve env parent")
    case (Inl e)
    then show ?thesis using p by (simp add: is_subpath_def ebind_def)
  next
    case (Inr rparent)
    then show ?thesis using p by (simp add: is_subpath_def ebind_def relative_to_def)
  qed
qed

lemma scan_listing:
  "scan env input_dir output_dir (map (\<lambda>r. input_dir @ r) rs) =
     Inr (map (\<lambda>r. (input_dir @ r, output_dir @ r))
            (filter (\<lambda>r. is_image_file env (input_dir @ r)
                          \<and> \<not> is_subpath env (input_dir @ r) output_dir) rs))"
  by (induction rs) (simp_all add: relative_to_append ebind_def)

lemma files_listing:
  "files env input_dir output_dir no_recursive =
     Inr (map (\<lambda>r. (input_dir @ r, output_dir @ r))
            (filter (\<lambda>r. is_image_file env (input_dir @ r)
                          \<and> \<not> is_subpath env (input_dir @ r) output_dir)
               (if no_recursive then filter (\<lambda>r. length r = 1) (listing env input_dir)
                else listing env input_dir)))"
  by (simp add: files_def glob_def rglob_def scan_listing)




section \<open>The sample environment, evaluated\<close>

text \<open>
  The values of the program on the sample environment. The floating point products are
  exact here (the parameters are dyadic), so each follows from \<open>int_of_product_dyadic\<close>.
\<close>

lemma sample_env_simps:
  "is_file sample_env p \<longleftrightarrow>
     p \<in> {[''in'', ''a.png''], [''in'', ''sub'', ''b.JPG''], [''in'', ''notes.txt''],
          [''in'', ''bad.jpeg''], [''in'', ''watermarked'', ''c.png'']}"
  "is_dir sample_env p \<longleftrightarrow> p \<in> {[''in''], [''in'', ''sub''], [''in'', ''watermarked'']}"
  "parse_path sample_env s = [s]"
  "path_str sample_env p = concat p"
  "resolve sample_env p = Inr p"
  "listing sample_env d = (if d = [''in''] then sample_listing else [])"
  "mkdir_error sample_env p = None"
  "truetype_error sample_env s n = None"
  "textbbox sample_env f t = Inr (0, 0, 6 * int (length t), 11)"
  "rotate_size sample_env = sample_rotate_size"
  "convertible sample_env a b \<longleftrightarrow> b \<in> {''RGBA'', ''RGB'', ''L''}"
  "open_image sample_env = sample_open"
  "save_error sample_env p img kw = None"
  by (simp_all add: sample_env_def)

lemma sample_products:
  "int_of_product 800 (Finite (1 / 16)) = Inr 50"
  "int_of_product 800 (Finite (1 / 32)) = Inr 25"
  "int_of_product 255 (Finite (3 / 8)) = Inr 95"
  using int_of_product_dyadic[of 800 1 4] int_of_product_dyadic[of 800 1 5]
    int_of_product_dyadic[of 255 3 3]
  by simp_all

lemma sample_find_font: "find_font sample_env None = None"
  by (simp add: find_font_def candidates_def sample_env_simps)

lemma sample_text_layer:
  "text_layer sample_env 1000 800 ''congcong'' (Finite (3 / 8)) (Finite (1 / 16)) (Finite (1 / 32))
     None (Finite 0) =
   Inr \<lparr>v_size = 50, v_fp = None, v_font = DefaultFont, v_tw = 48, v_th = 11, v_margin = 25,
        v_alpha = 95, v_shadow_alpha = 47, v_padding = 10,
        v_text_img = \<lparr>width = 68, height = 31, mode = ''RGBA'', orientation = None\<rparr>,
        v_draws =
          [\<lparr>xy = (11, 11), drawn_text = ''congcong'', drawn_font = DefaultFont,
            fill = (0, 0, 0, 47)\<rparr>,
           \<lparr>xy = (10, 10), drawn_text = ''congcong'', drawn_font = DefaultFont,
            fill = (255, 255, 255, 95)\<rparr>],
        v_rotated = \<lparr>width = 68, height = 31, mode = ''RGBA'', orientation = None\<rparr>,
        v_x = 907, v_y = 744\<rparr>"
  by (simp add: text_layer_def sample_products sample_find_font int_of_product_half
      int_of_product_fifth load_font_def ebind_def Image_new_def rotate_img_def
      sample_rotate_size_def sample_env_simps)

lemma sample_call:
  "add_text_watermark sample_env \<lparr>width = 1000, height = 800, mode = ''RGB'', orientation = None\<rparr>
     ''congcong'' (Finite (3 / 8)) (Finite (1 / 16)) (Finite (1 / 32)) None (Finite 0) =
   Inr \<lparr>width = 1000, height = 800, mode = ''RGB'', orientation = None\<rparr>"
  by (simp add: add_text_watermark_def wm_composite_def exif_transpose_def sample_text_layer
      convert_def Image_new_def paste_def alpha_composite_def ebind_def sample_env_simps)

lemma counter_products:
  "int_of_product 150 (Finite (1 / 8)) = Inr 18"
  using int_of_product_dyadic[of 150 1 3] by simp

lemma counter_text_layer:
  "text_layer sample_env 200 150 ''congcong'' (Finite (3 / 8)) (Finite (1 / 8)) (Finite (1 / 8))
     None (Finite 0) =
   Inr \<lparr>v_size = 18, v_fp = None, v_font = DefaultFont, v_tw = 48, v_th = 11, v_margin = 18,
        v_alpha = 95, v_shadow_alpha = 47, v_padding = 3,
        v_text_img = \<lparr>width = 54, height = 17, mode = ''RGBA'', orientation = None\<rparr>,
        v_draws =
          [\<lparr>xy = (4, 4), drawn_text = ''congcong'', drawn_font = DefaultFont,
            fill = (0, 0, 0, 47)\<rparr>,
           \<lparr>xy = (3, 3), drawn_text = ''congcong'', drawn_font = DefaultFont,
            fill = (255, 255, 255, 95)\<rparr>],
        v_rotated = \<lparr>width = 54, height = 17, mode = ''RGBA'', orientation = None\<rparr>,
        v_x = 128, v_y = 115\<rparr>"
  by (simp add: text_layer_def sample_products counter_products sample_find_font
      int_of_product_half int_of_product_fifth load_font_def ebind_def Image_new_def
      rotate_img_def sample_rotate_size_def sample_env_simps)

lemma counter_call:
  "add_text_watermark sample_env \<lparr>width = 200, height = 150, mode = ''RGB'', orientation = None\<rparr>
     ''congcong'' (Finite (3 / 8)) (Finite (1 / 8)) (Finite (1 / 8)) None (Finite 0) =
   Inr \<lparr>width = 200, height = 150, mode = ''RGB'', orientation = None\<rparr>"
  by (simp add: add_text_watermark_def wm_composite_def exif_transpose_def counter_text_layer
      convert_def Image_new_def paste_def alpha_composite_def ebind_def sample_env_simps)

lemma oriented_products:
  "int_of_product 3000 (Finite (1 / 16)) = Inr 187"
  "int_of_product 3000 (Finite (1 / 32)) = Inr 93"
  using int_of_product_dyadic[of 3000 1 4] int_of_product_dyadic[of 3000 1 5]
  by simp_all

lemma oriented_text_layer:
  "text_layer sample_env 3000 4000 ''congcong'' (Finite (3 / 8)) (Finite (1 / 16)) (Finite (1 / 32))
     None (Finite 0) =
   Inr \<lparr>v_size = 187, v_fp = None, v_font = DefaultFont, v_tw = 48, v_th = 11, v_margin = 93,
        v_alpha = 95, v_shadow_alpha = 47, v_padding = 37,
        v_text_img = \<lparr>width = 122, height = 85, mode = ''RGBA'', orientation = None\<rparr>,
        v_draws =
          [\<lparr>xy = (38, 38), drawn_text = ''congcong'', drawn_font = DefaultFont,
            fill = (0, 0, 0, 47)\<rparr>,
           \<lparr>xy = (37, 37), drawn_text = ''congcong'', drawn_font = DefaultFont,
            fill = (255, 255, 255, 95)\<rparr>],
        v_rotated = \<lparr>width = 122, height = 85, mode = ''RGBA'', orientation = None\<rparr>,
        v_x = 2785, v_y = 3822\<rparr>"
  by (simp add: text_layer_def sample_products oriented_products sample_find_font
      int_of_product_half int_of_product_fifth load_font_def ebind_def Image_new_def
      rotate_img_def sample_rotate_size_def sample_env_simps)

lemma oriented_call:
  "add_text_watermark sample_env \<lparr>width = 4000, height = 3000, mode = ''RGB'', orientation = Some 6\<rparr>
     ''congcong'' (Finite (3 / 8)) (Finite (1 / 16)) (Finite (1 / 32)) None (Finite 0) =
   Inr \<lparr>width = 3000, height = 4000, mode = ''RGB'', orientation = None\<rparr>"
  by (simp add: add_text_watermark_def wm_composite_def exif_transpose_def oriented_text_layer
      convert_def Image_new_def paste_def alpha_composite_def ebind_def sample_env_simps)

lemma small_products:
  "int_of_product 30 (Finite (1 / 16)) = Inr 1"
  "int_of_product 30 (Finite (1 / 32)) = Inr 0"
  using int_of_product_dyadic[of 30 1 4] int_of_product_dyadic[of 30 1 5]
  by simp_all

lemma small_text_layer:
  "text_layer sample_env 40 30 ''congcong'' (Finite (3 / 8)) (Finite (1 / 16)) (Finite (1 / 32))
     None (Finite 0) =
   Inr \<lparr>v_size = 12, v_fp = None, v_font = DefaultFont, v_tw = 48, v_th = 11, v_margin = 0,
        v_alpha = 95, v_shadow_alpha = 47, v_padding = 2,
        v_text_img = \<lparr>width = 52, height = 15, mode = ''RGBA'', orientation = None\<rparr>,
        v_draws =
          [\<lparr>xy = (3, 3), drawn_text = ''congcong'', drawn_font = DefaultFont,
            fill = (0, 0, 0, 47)\<rparr>,
           \<lparr>xy = (2, 2), drawn_text = ''congcong'', drawn_font = DefaultFont,
            fill = (255, 255, 255, 95)\<rparr>],
        v_rotated = \<lparr>width = 52, height = 15, mode = ''RGBA'', orientation = None\<rparr>,
        v_x = 0, v_y = 15\<rparr>"
  by (simp add: text_layer_def sample_products small_products sample_find_font
      int_of_product_half int_of_product_fifth load_font_def ebind_def Image_new_def
      rotate_img_def sample_rotate_size_def sample_env_simps)

lemma small_call:
  "add_text_watermark sample_env \<lparr>width = 40, height = 30, mode = ''RGB'', orientation = None\<rparr>
     ''congcong'' (Finite (3 / 8)) (Finite (1 / 16)) (Finite (1 / 32)) None (Finite 0) =
   Inr \<lparr>width = 40, height = 30, mode = ''RGB'', orientation = None\<rparr>"
  by (simp add: add_text_watermark_def wm_composite_def exif_transpose_def small_text_layer
      convert_def Image_new_def paste_def alpha_composite_def ebind_def sample_env_simps)

lemma sample_composite:
  "wm_composite sample_env \<lparr>width = 1000, height = 800, mode = m, orientation = None\<rparr>
     ''congcong'' (Finite (3 / 8)) (Finite (1 / 16)) (Finite (1 / 32)) None (Finite 0) =
   Inr \<lparr>width = 1000, height = 800, mode = ''RGBA'', orientation = None\<rparr>"
  by (cases "m = ''RGBA''")
    (simp_all add: wm_composite_def exif_transpose_def sample_text_layer Let_def
      convert_def Image_new_def paste_def alpha_composite_def ebind_def sample_env_simps)

lemma strict_composite:
  "wm_composite (sample_env\<lparr>convertible := (\<lambda>a b. b = ''RGBA'')\<rparr>)
     \<lparr>width = 1000, height = 800, mode = ''P'', orientation = None\<rparr>
     ''congcong'' (Finite (3 / 8)) (Finite (1 / 16)) (Finite (1 / 32)) None (Finite 0) =
   Inr \<lparr>width = 1000, height = 800, mode = ''RGBA'', orientation = None\<rparr>"
  by (simp add: wm_composite_def exif_transpose_def text_layer_convertible sample_text_layer
      Let_def convert_def Image_new_def paste_def alpha_composite_def ebind_def)

lemma sample_suffixes:
  "str_lower (path_suffix [''in'', ''sub'', ''b.JPG'']) = ''.jpg''"
  "str_lower (path_suffix [''in'', ''a.png'']) = ''.png''"
  "str_lower (path_suffix [''in'', ''bad.jpeg'']) = ''.jpeg''"
  "str_lower (path_suffix [''in'', ''notes.txt'']) = ''.txt''"
  "str_lower (path_suffix [''in'', ''watermarked'', ''c.png'']) = ''.png''"
  "str_lower (path_suffix [''in'', ''sub'']) = []"
  "str_lower (path_suffix [''in'', ''watermarked'']) = []"
  by code_simp+

lemma sample_process:
  "process_image_file sample_env [''in'', ''sub'', ''b.JPG'']
     [''in'', ''watermarked'', ''sub'', ''b.JPG'']
     ''congcong'' (Finite (3 / 8)) (Finite (1 / 16)) (Finite (1 / 32)) None (Finite 0) =
   Inr \<lparr>saved_path = [''in'', ''watermarked'', ''sub'', ''b.JPG''],
        saved_image = \<lparr>width = 3000, height = 4000, mode = ''RGB'', orientation = None\<rparr>,
        saved_kwargs = [(''quality'', IntArg 90), (''optimize'', BoolArg True)]\<rparr>"
  by (simp add: process_image_file_def sample_env_simps sample_open_def oriented_call
      sample_suffixes ebind_def convert_def save_def)

lemma sample_is_subpath:
  "is_subpath sample_env p [''in'', ''watermarked''] \<longleftrightarrow> prefix [''in'', ''watermarked''] p"
  by (simp add: is_subpath_iff sample_env_simps)

lemma sample_image_files:
  "is_image_file sample_env [''in'', ''a.png'']"
  "\<not> is_image_file sample_env [''in'', ''sub'']"
  "is_image_file sample_env [''in'', ''sub'', ''b.JPG'']"
  "\<not> is_image_file sample_env [''in'', ''notes.txt'']"
  "is_image_file sample_env [''in'', ''bad.jpeg'']"
  "\<not> is_image_file sample_env [''in'', ''watermarked'']"
  "is_image_file sample_env [''in'', ''watermarked'', ''c.png'']"
  by (simp_all add: is_image_file_def sample_env_simps sample_suffixes ALLOWED_EXTS_def)

lemma sample_files:
  "files sample_env [''in''] [''in'', ''watermarked''] False =
     Inr [([''in'', ''a.png''], [''in'', ''watermarked'', ''a.png'']),
          ([''in'', ''sub'', ''b.JPG''], [''in'', ''watermarked'', ''sub'', ''b.JPG'']),
          ([''in'', ''bad.jpeg''], [''in'', ''watermarked'', ''bad.jpeg''])]"
  "files sample_env [''in''] [''in'', ''watermarked''] True =
     Inr [([''in'', ''a.png''], [''in'', ''watermarked'', ''a.png'']),
          ([''in'', ''bad.jpeg''], [''in'', ''watermarked'', ''bad.jpeg''])]"
  by (simp_all add: files_listing sample_env_simps sample_listing_def sample_image_files
      sample_is_subpath)




section \<open>C1: the alpha values of the text and of its shadow\<close>

text \<open>
  C1, as the code has it. For a finite opacity in \<open>[0, 1]\<close> and every call of
  \<open>add_text_watermark\<close> that returns, the alpha of the primary text is the integer part
  of the binary64 product \<open>255 * opacity\<close>: \<open>int\<close> truncates, it does not round to the
  nearest integer. That value lies between the floor and the ceiling of the exact product
  and in \<open>[0, 255]\<close>, so the clamp changes nothing. The shadow's alpha is
  \<open>alpha div 2\<close>, again a truncation. Both are the fourth components of the fill colours
  of the two \<open>text\<close> calls, the shadow drawn first.
\<close>

theorem C1_alpha_truncates:
  assumes op: "0 \<le> op" "op \<le> 1"
    and call: "add_text_watermark env img text (Finite op) scale margin_ratio font_path angle = Inr out"
  shows "\<exists>v p. text_layer env (width (exif_transpose img)) (height (exif_transpose img))
                  text (Finite op) scale margin_ratio font_path angle = Inr v
             \<and> round_double (255 * op) = Finite p
             \<and> v_alpha v = \<lfloor>p\<rfloor>
             \<and> \<lfloor>255 * op\<rfloor> \<le> v_alpha v \<and> v_alpha v \<le> \<lceil>255 * op\<rceil>
             \<and> 0 \<le> v_alpha v \<and> v_alpha v \<le> 255
             \<and> v_shadow_alpha v = v_alpha v div 2
             \<and> map fill (v_draws v) = [(0, 0, 0, v_shadow_alpha v), (255, 255, 255, v_alpha v)]"
proof -
  obtain v where v: "text_layer env (width (exif_transpose img)) (height (exif_transpose img))
                       text (Finite op) scale margin_ratio font_path angle = Inr v"
    using call by (rule add_text_watermark_vars)
  from v obtain a sa where
    a: "int_of_product 255 (Finite op) = Inr a"
    and sa: "int_of_product (v_alpha v) (Finite (1 / 2)) = Inr sa"
    and va: "v_alpha v = max 0 (min 255 a)"
    and vs: "v_shadow_alpha v = max 0 (min 255 sa)"
    and vd: "v_draws v =
       [\<lparr>xy = (v_padding v + 1, v_padding v + 1), drawn_text = text, drawn_font = v_font v,
         fill = (0, 0, 0, v_shadow_alpha v)\<rparr>,
        \<lparr>xy = (v_padding v, v_padding v), drawn_text = text, drawn_font = v_font v,
         fill = (255, 255, 255, v_alpha v)\<rparr>]"
    by (rule text_layer_fields)
  have x0: "0 \<le> 255 * op" and x1: "255 * op \<le> 255" using op by simp_all
  then have "\<bar>255 * op\<bar> < 2 ^ 53" by simp
  then obtain p where p: "round_double (255 * op) = Finite p"
    "of_int \<lfloor>255 * op\<rfloor> \<le> p" "p \<le> of_int \<lceil>255 * op\<rceil>"
    using round_double_near_ints by blast
  have f0: "0 \<le> \<lfloor>255 * op\<rfloor>" using x0 by simp
  have c255: "\<lceil>255 * op\<rceil> \<le> 255" using x1 by (simp add: ceiling_le_iff)
  have p0: "0 \<le> p"
  proof -
    have "(0::rat) \<le> of_int \<lfloor>255 * op\<rfloor>" using f0 by (simp only: of_int_0_le_iff)
    then show ?thesis using p(2) by (rule order_trans)
  qed
  have "int_of_product 255 (Finite op) = py_int (round_double (of_int 255 * op))"
    by (rule int_of_product_finite) simp
  then have a_eq: "a = \<lfloor>p\<rfloor>" using a p(1) p0 by (simp add: py_int_def py_trunc_def)
  have a_lo: "\<lfloor>255 * op\<rfloor> \<le> a" unfolding a_eq using p(2) by (simp add: le_floor_iff)
  have a_hi: "a \<le> \<lceil>255 * op\<rceil>"
  proof -
    have "of_int \<lfloor>p\<rfloor> \<le> p" by simp
    then have "(of_int \<lfloor>p\<rfloor> :: rat) \<le> of_int \<lceil>255 * op\<rceil>" using p(3) by (rule order_trans)
    then show ?thesis unfolding a_eq by (simp only: of_int_le_iff)
  qed
  have a_rng: "0 \<le> a" "a \<le> 255" using a_lo a_hi f0 c255 by linarith+
  then have clamp: "max 0 (min 255 a) = a" by simp
  have va': "v_alpha v = a" using va clamp by simp
  have "int_of_product a (Finite (1 / 2)) = Inr (a div 2)"
    using a_rng by (rule int_of_product_half)
  then have sa_eq: "sa = a div 2" using sa va' by simp
  have clamp2: "max 0 (min 255 sa) = a div 2" using a_rng sa_eq by simp
  have vs': "v_shadow_alpha v = a div 2" using vs clamp2 by simp
  have vd': "map fill (v_draws v) = [(0, 0, 0, a div 2), (255, 255, 255, a)]"
    unfolding vd by (simp add: va' vs')
  have "text_layer env (width (exif_transpose img)) (height (exif_transpose img))
          text (Finite op) scale margin_ratio font_path angle = Inr v
        \<and> round_double (255 * op) = Finite p
        \<and> v_alpha v = \<lfloor>p\<rfloor>
        \<and> \<lfloor>255 * op\<rfloor> \<le> v_alpha v \<and> v_alpha v \<le> \<lceil>255 * op\<rceil>
        \<and> 0 \<le> v_alpha v \<and> v_alpha v \<le> 255
        \<and> v_shadow_alpha v = v_alpha v div 2
        \<and> map fill (v_draws v) = [(0, 0, 0, v_shadow_alpha v), (255, 255, 255, v_alpha v)]"
    unfolding va' vs' using v p(1) a_eq a_lo a_hi a_rng vd' by (intro conjI) simp_all
  then show ?thesis by (intro exI)
qed

text \<open>
  Witness of C1: the sample call with opacity \<open>0.375\<close> on a 1000 by 800 RGB image
  returns, and the conclusion holds for it.
\<close>

theorem C1_alpha_truncates_witness:
  "(0::rat) \<le> 3 / 8 \<and> (3 / 8 :: rat) \<le> 1
   \<and> add_text_watermark sample_env
        \<lparr>width = 1000, height = 800, mode = ''RGB'', orientation = None\<rparr>
        ''congcong'' (Finite (3 / 8)) (Finite (1 / 16)) (Finite (1 / 32)) None (Finite 0) =
      Inr \<lparr>width = 1000, height = 800, mode = ''RGB'', orientation = None\<rparr>
   \<and> (\<exists>v p. text_layer sample_env 1000 800 ''congcong'' (Finite (3 / 8)) (Finite (1 / 16))
                  (Finite (1 / 32)) None (Finite 0) = Inr v
            \<and> round_double (255 * (3 / 8)) = Finite p
            \<and> v_alpha v = \<lfloor>p\<rfloor>
            \<and> \<lfloor>255 * (3 / 8 :: rat)\<rfloor> \<le> v_alpha v \<and> v_alpha v \<le> \<lceil>255 * (3 / 8 :: rat)\<rceil>
            \<and> 0 \<le> v_alpha v \<and> v_alpha v \<le> 255
            \<and> v_shadow_alpha v = v_alpha v div 2
            \<and> map fill (v_draws v) = [(0, 0, 0, v_shadow_alpha v), (255, 255, 255, v_alpha v)])"
proof -
  have a: "(0::rat) \<le> 3 / 8" and b: "(3 / 8 :: rat) \<le> 1" by simp_all
  have w: "width (exif_transpose \<lparr>width = 1000, height = 800, mode = ''RGB'', orientation = None\<rparr>) = 1000"
    and h: "height (exif_transpose \<lparr>width = 1000, height = 800, mode = ''RGB'', orientation = None\<rparr>) = 800"
    by (simp_all add: exif_transpose_def)
  from C1_alpha_truncates[OF a b sample_call, unfolded w h] a b sample_call
  show ?thesis by (intro conjI)
qed

text \<open>
  Counterexample to C1 as stated: the sample call with opacity \<open>0.375\<close> returns, and
  the product \<open>255 * 0.375\<close> is \<open>95.625\<close>; the code fills the text with alpha 95 where
  rounding gives 96, and the shadow with alpha 47 where rounding \<open>47.5\<close> gives 48 (half up
  and half even alike).
\<close>

theorem C1_round_counterexample:
  "add_text_watermark sample_env \<lparr>width = 1000, height = 800, mode = ''RGB'', orientation = None\<rparr>
     ''congcong'' (Finite (3 / 8)) (Finite (1 / 16)) (Finite (1 / 32)) None (Finite 0) =
   Inr \<lparr>width = 1000, height = 800, mode = ''RGB'', orientation = None\<rparr>
   \<and> text_layer sample_env 1000 800 ''congcong'' (Finite (3 / 8)) (Finite (1 / 16)) (Finite (1 / 32))
     None (Finite 0) =
   Inr \<lparr>v_size = 50, v_fp = None, v_font = DefaultFont, v_tw = 48, v_th = 11, v_margin = 25,
        v_alpha = 95, v_shadow_alpha = 47, v_padding = 10,
        v_text_img = \<lparr>width = 68, height = 31, mode = ''RGBA'', orientation = None\<rparr>,
        v_draws =
          [\<lparr>xy = (11, 11), drawn_text = ''congcong'', drawn_font = DefaultFont,
            fill = (0, 0, 0, 47)\<rparr>,
           \<lparr>xy = (10, 10), drawn_text = ''congcong'', drawn_font = DefaultFont,
            fill = (255, 255, 255, 95)\<rparr>],
        v_rotated = \<lparr>width = 68, height = 31, mode = ''RGBA'', orientation = None\<rparr>,
        v_x = 907, v_y = 744\<rparr>
   \<and> max 0 (min 255 (round (255 * (3 / 8 :: rat)))) = 96
   \<and> max 0 (min 255 (round_half_even (255 * (3 / 8)))) = 96
   \<and> max 0 (min 255 (round (95 * (1 / 2 :: rat)))) = 48
   \<and> max 0 (min 255 (round_half_even (95 * (1 / 2)))) = 48"
proof -
  have r1: "max 0 (min 255 (round (255 * (3 / 8 :: rat)))) = 96" by code_simp
  have r2: "max 0 (min 255 (round_half_even (255 * (3 / 8)))) = 96" by code_simp
  have r3: "max 0 (min 255 (round (95 * (1 / 2 :: rat)))) = 48" by code_simp
  have r4: "max 0 (min 255 (round_half_even (95 * (1 / 2)))) = 48" by code_simp
  from sample_call sample_text_layer r1 r2 r3 r4 show ?thesis by (intro conjI)
qed

section \<open>C2: the size of the returned image\<close>

text \<open>
  C2, as the code has it. The image that \<open>add_text_watermark\<close> returns has the size of the
  input after its Exif orientation is applied (line 36): the size of the input when the
  orientation tag is absent or one of 1 to 4, and the input's height and width exchanged
  when the tag is one of 5 to 8. This holds for every mode, angle, scale and margin ratio.
\<close>

theorem C2_size_of_oriented_image:
  assumes "add_text_watermark env img text opacity scale margin_ratio font_path angle = Inr out"
  shows "(width out, height out) =
           (if orientation img \<in> {Some 5, Some 6, Some 7, Some 8}
            then (height img, width img) else (width img, height img))"
  using add_text_watermark_header[OF assms] exif_transpose_size[of img] by simp

text \<open>
  Witness of C2: a 4000 by 3000 image tagged with orientation 6 comes back 3000 by 4000,
  which is the input's height and width.
\<close>

theorem C2_size_of_oriented_image_witness:
  "add_text_watermark sample_env \<lparr>width = 4000, height = 3000, mode = ''RGB'', orientation = Some 6\<rparr>
     ''congcong'' (Finite (3 / 8)) (Finite (1 / 16)) (Finite (1 / 32)) None (Finite 0) =
   Inr \<lparr>width = 3000, height = 4000, mode = ''RGB'', orientation = None\<rparr>
   \<and> (width \<lparr>width = 3000, height = 4000, mode = ''RGB'', orientation = None\<rparr>,
      height \<lparr>width = 3000, height = 4000, mode = ''RGB'', orientation = None\<rparr>) =
     (height \<lparr>width = 4000, height = 3000, mode = ''RGB'', orientation = Some 6\<rparr>,
      width \<lparr>width = 4000, height = 3000, mode = ''RGB'', orientation = Some 6\<rparr>)"
  using C2_size_of_oriented_image[OF oriented_call] oriented_call by simp

text \<open>
  Counterexample to C2 as stated: the same call. The input is 4000 by 3000, the returned
  image is 3000 by 4000.
\<close>

theorem C2_orientation_counterexample:
  "add_text_watermark sample_env \<lparr>width = 4000, height = 3000, mode = ''RGB'', orientation = Some 6\<rparr>
     ''congcong'' (Finite (3 / 8)) (Finite (1 / 16)) (Finite (1 / 32)) None (Finite 0) =
   Inr \<lparr>width = 3000, height = 4000, mode = ''RGB'', orientation = None\<rparr>
   \<and> (3000, 4000) \<noteq> (4000 :: int, 3000 :: int)"
  using oriented_call by simp

section \<open>C3: font size, margin and padding\<close>

text \<open>
  C3, as the code has it. Let \<open>W\<close> and \<open>H\<close> be the size of the image after the Exif
  orientation is applied. For every call of \<open>add_text_watermark\<close> with finite scale and
  margin ratio that returns, the font size is \<open>max(12, int(min(W,H) * scale))\<close>, the
  margin is \<open>int(min(W,H) * margin_ratio)\<close> and the padding is
  \<open>max(2, int(size * 0.2))\<close>, where \<open>int\<close> drops the fractional part of the binary64
  product (\<open>py_trunc\<close>, towards zero) and does not round to the nearest integer. For
  every font size below \<open>2^50\<close> the padding is \<open>max(2, size div 5)\<close>.
\<close>

theorem C3_geometry_truncates:
  assumes side: "\<bar>min (width (exif_transpose img)) (height (exif_transpose img))\<bar> < 2 ^ 53"
    and call: "add_text_watermark env img text opacity (Finite s) (Finite r) font_path angle = Inr out"
  shows "\<exists>v p q pd.
           text_layer env (width (exif_transpose img)) (height (exif_transpose img))
             text opacity (Finite s) (Finite r) font_path angle = Inr v
         \<and> round_double (of_int (min (width (exif_transpose img)) (height (exif_transpose img))) * s)
             = Finite p
         \<and> v_size v = max 12 (py_trunc p)
         \<and> round_double (of_int (min (width (exif_transpose img)) (height (exif_transpose img))) * r)
             = Finite q
         \<and> v_margin v = py_trunc q
         \<and> int_of_product (v_size v) (round_double (1 / 5)) = Inr pd
         \<and> v_padding v = max 2 pd
         \<and> (v_size v < 2 ^ 50 \<longrightarrow> v_padding v = max 2 (v_size v div 5))"
proof -
  define m where "m = min (width (exif_transpose img)) (height (exif_transpose img))"
  obtain v where v: "text_layer env (width (exif_transpose img)) (height (exif_transpose img))
                       text opacity (Finite s) (Finite r) font_path angle = Inr v"
    using call by (rule add_text_watermark_vars)
  from v obtain n margin pd where
    n: "int_of_product m (Finite s) = Inr n"
    and mg: "int_of_product m (Finite r) = Inr margin"
    and pd: "int_of_product (v_size v) (round_double (1 / 5)) = Inr pd"
    and vsz: "v_size v = max 12 n"
    and vmg: "v_margin v = margin"
    and vpd: "v_padding v = max 2 pd"
    unfolding m_def by (rule text_layer_fields)
  have m53: "\<bar>m\<bar> < 2 ^ 53" using side by (simp only: m_def)
  obtain p where p: "round_double (of_int m * s) = Finite p" "n = py_trunc p"
    using n unfolding int_of_product_finite[OF m53] py_int_Inr by blast
  obtain q where q: "round_double (of_int m * r) = Finite q" "margin = py_trunc q"
    using mg unfolding int_of_product_finite[OF m53] py_int_Inr by blast
  have small: "v_padding v = max 2 (v_size v div 5)" if "v_size v < 2 ^ 50"
  proof -
    have "0 \<le> v_size v" by (simp add: vsz)
    then have "int_of_product (v_size v) (round_double (1 / 5)) = Inr (v_size v div 5)"
      using that by (rule int_of_product_fifth)
    then have "pd = v_size v div 5" using pd by simp
    then show ?thesis by (simp only: vpd)
  qed
  have "text_layer env (width (exif_transpose img)) (height (exif_transpose img))
             text opacity (Finite s) (Finite r) font_path angle = Inr v
         \<and> round_double (of_int m * s) = Finite p
         \<and> v_size v = max 12 (py_trunc p)
         \<and> round_double (of_int m * r) = Finite q
         \<and> v_margin v = py_trunc q
         \<and> int_of_product (v_size v) (round_double (1 / 5)) = Inr pd
         \<and> v_padding v = max 2 pd
         \<and> (v_size v < 2 ^ 50 \<longrightarrow> v_padding v = max 2 (v_size v div 5))"
    using v p q pd vsz vmg vpd small by (intro conjI) simp_all
  then show ?thesis unfolding m_def by (intro exI)
qed

text \<open>
  Witness of C3: the sample call on a 1000 by 800 image with scale \<open>0.0625\<close> and margin
  ratio \<open>0.03125\<close> returns, its font size is below \<open>2^50\<close>, and the conclusion holds.
\<close>

theorem C3_geometry_truncates_witness:
  "\<bar>min (width (exif_transpose \<lparr>width = 1000, height = 800, mode = ''RGB'', orientation = None\<rparr>))
        (height (exif_transpose \<lparr>width = 1000, height = 800, mode = ''RGB'', orientation = None\<rparr>))\<bar>
     < 2 ^ 53
   \<and> add_text_watermark sample_env
        \<lparr>width = 1000, height = 800, mode = ''RGB'', orientation = None\<rparr>
        ''congcong'' (Finite (3 / 8)) (Finite (1 / 16)) (Finite (1 / 32)) None (Finite 0) =
      Inr \<lparr>width = 1000, height = 800, mode = ''RGB'', orientation = None\<rparr>
   \<and> (\<exists>v p q pd.
           text_layer sample_env 1000 800 ''congcong'' (Finite (3 / 8)) (Finite (1 / 16))
             (Finite (1 / 32)) None (Finite 0) = Inr v
         \<and> round_double (of_int (min 1000 800) * (1 / 16)) = Finite p
         \<and> v_size v = max 12 (py_trunc p)
         \<and> round_double (of_int (min 1000 800) * (1 / 32)) = Finite q
         \<and> v_margin v = py_trunc q
         \<and> int_of_product (v_size v) (round_double (1 / 5)) = Inr pd
         \<and> v_padding v = max 2 pd
         \<and> v_size v < 2 ^ 50 \<and> v_padding v = max 2 (v_size v div 5))"
proof -
  have w: "width (exif_transpose \<lparr>width = 1000, height = 800, mode = ''RGB'', orientation = None\<rparr>) = 1000"
    and h: "height (exif_transpose \<lparr>width = 1000, height = 800, mode = ''RGB'', orientation = None\<rparr>) = 800"
    by (simp_all add: exif_transpose_def)
  have side: "\<bar>min (width (exif_transpose \<lparr>width = 1000, height = 800, mode = ''RGB'', orientation = None\<rparr>))
        (height (exif_transpose \<lparr>width = 1000, height = 800, mode = ''RGB'', orientation = None\<rparr>))\<bar>
     < 2 ^ 53"
    unfolding w h by simp
  from C3_geometry_truncates[OF side sample_call, unfolded w h]
  obtain v p q pd where
    a: "text_layer sample_env 1000 800 ''congcong'' (Finite (3 / 8)) (Finite (1 / 16))
             (Finite (1 / 32)) None (Finite 0) = Inr v"
    and b: "round_double (of_int (min 1000 800) * (1 / 16)) = Finite p"
      "v_size v = max 12 (py_trunc p)"
      "round_double (of_int (min 1000 800) * (1 / 32)) = Finite q"
      "v_margin v = py_trunc q"
      "int_of_product (v_size v) (round_double (1 / 5)) = Inr pd"
      "v_padding v = max 2 pd"
    and c: "v_size v < 2 ^ 50 \<longrightarrow> v_padding v = max 2 (v_size v div 5)"
    by blast
  have sz: "v_size v < 2 ^ 50" using a unfolding sample_text_layer by auto
  have "text_layer sample_env 1000 800 ''congcong'' (Finite (3 / 8)) (Finite (1 / 16))
             (Finite (1 / 32)) None (Finite 0) = Inr v
         \<and> round_double (of_int (min 1000 800) * (1 / 16)) = Finite p
         \<and> v_size v = max 12 (py_trunc p)
         \<and> round_double (of_int (min 1000 800) * (1 / 32)) = Finite q
         \<and> v_margin v = py_trunc q
         \<and> int_of_product (v_size v) (round_double (1 / 5)) = Inr pd
         \<and> v_padding v = max 2 pd
         \<and> v_size v < 2 ^ 50 \<and> v_padding v = max 2 (v_size v div 5)"
    using a b c sz by (intro conjI) simp_all
  then have "\<exists>v p q pd.
           text_layer sample_env 1000 800 ''congcong'' (Finite (3 / 8)) (Finite (1 / 16))
             (Finite (1 / 32)) None (Finite 0) = Inr v
         \<and> round_double (of_int (min 1000 800) * (1 / 16)) = Finite p
         \<and> v_size v = max 12 (py_trunc p)
         \<and> round_double (of_int (min 1000 800) * (1 / 32)) = Finite q
         \<and> v_margin v = py_trunc q
         \<and> int_of_product (v_size v) (round_double (1 / 5)) = Inr pd
         \<and> v_padding v = max 2 pd
         \<and> v_size v < 2 ^ 50 \<and> v_padding v = max 2 (v_size v div 5)"
    by (intro exI)
  with side sample_call show ?thesis by (intro conjI)
qed

text \<open>
  Counterexample to C3 as stated: on a 200 by 150 image with scale and margin ratio
  \<open>0.125\<close> the products are \<open>18.75\<close>. The code uses font size 18, margin 18 and padding
  3 (\<open>int(3.6)\<close>); rounding gives 19, 19 and 4.
\<close>

theorem C3_round_counterexample:
  "add_text_watermark sample_env \<lparr>width = 200, height = 150, mode = ''RGB'', orientation = None\<rparr>
     ''congcong'' (Finite (3 / 8)) (Finite (1 / 8)) (Finite (1 / 8)) None (Finite 0) =
   Inr \<lparr>width = 200, height = 150, mode = ''RGB'', orientation = None\<rparr>
   \<and> text_layer sample_env 200 150 ''congcong'' (Finite (3 / 8)) (Finite (1 / 8)) (Finite (1 / 8))
     None (Finite 0) =
   Inr \<lparr>v_size = 18, v_fp = None, v_font = DefaultFont, v_tw = 48, v_th = 11, v_margin = 18,
        v_alpha = 95, v_shadow_alpha = 47, v_padding = 3,
        v_text_img = \<lparr>width = 54, height = 17, mode = ''RGBA'', orientation = None\<rparr>,
        v_draws =
          [\<lparr>xy = (4, 4), drawn_text = ''congcong'', drawn_font = DefaultFont,
            fill = (0, 0, 0, 47)\<rparr>,
           \<lparr>xy = (3, 3), drawn_text = ''congcong'', drawn_font = DefaultFont,
            fill = (255, 255, 255, 95)\<rparr>],
        v_rotated = \<lparr>width = 54, height = 17, mode = ''RGBA'', orientation = None\<rparr>,
        v_x = 128, v_y = 115\<rparr>
   \<and> max 12 (round (of_int (min 200 150) * (1 / 8 :: rat))) = 19
   \<and> max 12 (round_half_even (of_int (min 200 150) * (1 / 8))) = 19
   \<and> round (of_int (min 200 150) * (1 / 8 :: rat)) = 19
   \<and> round_half_even (of_int (min 200 150) * (1 / 8)) = 19
   \<and> max 2 (round (18 * (1 / 5 :: rat))) = 4
   \<and> max 2 (round_half_even (18 * (1 / 5))) = 4
   \<and> max 2 (round (19 * (1 / 5 :: rat))) = 4
   \<and> max 2 (round_half_even (19 * (1 / 5))) = 4"
proof -
  have r1: "max 12 (round (of_int (min 200 150) * (1 / 8 :: rat))) = 19" by code_simp
  have r2: "max 12 (round_half_even (of_int (min 200 150) * (1 / 8))) = 19" by code_simp
  have r3: "round (of_int (min 200 150) * (1 / 8 :: rat)) = 19" by code_simp
  have r4: "round_half_even (of_int (min 200 150) * (1 / 8)) = 19" by code_simp
  have r5: "max 2 (round (18 * (1 / 5 :: rat))) = 4" by code_simp
  have r6: "max 2 (round_half_even (18 * (1 / 5))) = 4" by code_simp
  have r7: "max 2 (round (19 * (1 / 5 :: rat))) = 4" by code_simp
  have r8: "max 2 (round_half_even (19 * (1 / 5))) = 4" by code_simp
  from counter_call counter_text_layer r1 r2 r3 r4 r5 r6 r7 r8 show ?thesis by (intro conjI)
qed

section \<open>C4: where the rotated raster is pasted\<close>



section \<open>C6: the mode of the returned image\<close>

text \<open>
  C6. When lines 36 to 69 have produced the composite, it is an RGBA image, and
  \<open>add_text_watermark\<close> returns as follows. If the input's mode is RGBA, the composite
  itself. If the mode is RGB or L, the composite converted to that mode. For every other
  mode, the composite converted to RGB when that conversion succeeds, and the RGBA
  composite itself when the conversion raises.
\<close>

theorem C6_mode_restoration:
  assumes c: "wm_composite env img text opacity scale margin_ratio font_path angle = Inr combined"
  shows "mode combined = ''RGBA''
       \<and> (mode img = ''RGBA'' \<longrightarrow>
            add_text_watermark env img text opacity scale margin_ratio font_path angle = Inr combined)
       \<and> (mode img = ''RGB'' \<or> mode img = ''L'' \<longrightarrow>
            add_text_watermark env img text opacity scale margin_ratio font_path angle =
              convert env combined (mode img))
       \<and> (mode img \<noteq> ''RGBA'' \<and> mode img \<noteq> ''RGB'' \<and> mode img \<noteq> ''L'' \<longrightarrow>
            (\<forall>r. convert env combined ''RGB'' = Inr r \<longrightarrow>
                 add_text_watermark env img text opacity scale margin_ratio font_path angle = Inr r
                 \<and> mode r = ''RGB'')
          \<and> (\<forall>e. convert env combined ''RGB'' = Inl e \<longrightarrow>
                 add_text_watermark env img text opacity scale margin_ratio font_path angle =
                   Inr combined))"
proof (intro conjI impI allI)
  show "mode combined = ''RGBA''" using c by (rule wm_composite_header(3))
next
  assume "mode img = ''RGBA''"
  then show "add_text_watermark env img text opacity scale margin_ratio font_path angle = Inr combined"
    by (simp add: add_text_watermark_restore[OF c])
next
  assume "mode img = ''RGB'' \<or> mode img = ''L''"
  then show "add_text_watermark env img text opacity scale margin_ratio font_path angle =
              convert env combined (mode img)"
    by (auto simp add: add_text_watermark_restore[OF c])
next
  fix r
  assume m: "mode img \<noteq> ''RGBA'' \<and> mode img \<noteq> ''RGB'' \<and> mode img \<noteq> ''L''"
    and r: "convert env combined ''RGB'' = Inr r"
  show "add_text_watermark env img text opacity scale margin_ratio font_path angle = Inr r"
    using m r by (simp add: add_text_watermark_restore[OF c])
  show "mode r = ''RGB''" using r by (rule convert_Inr(3))
next
  fix e
  assume m: "mode img \<noteq> ''RGBA'' \<and> mode img \<noteq> ''RGB'' \<and> mode img \<noteq> ''L''"
    and e: "convert env combined ''RGB'' = Inl e"
  show "add_text_watermark env img text opacity scale margin_ratio font_path angle = Inr combined"
    using m e by (simp add: add_text_watermark_restore[OF c])
qed

text \<open>
  Witness of C6: on the sample environment an RGBA input gives back the RGBA composite,
  an L input an L image, and a P input an RGB image; on an environment whose only
  conversions are those to RGBA, the conversion to RGB raises and the P input gives back
  the RGBA composite.
\<close>

theorem C6_mode_restoration_witness:
  "wm_composite sample_env \<lparr>width = 1000, height = 800, mode = ''RGBA'', orientation = None\<rparr>
     ''congcong'' (Finite (3 / 8)) (Finite (1 / 16)) (Finite (1 / 32)) None (Finite 0) =
   Inr \<lparr>width = 1000, height = 800, mode = ''RGBA'', orientation = None\<rparr>
   \<and> add_text_watermark sample_env \<lparr>width = 1000, height = 800, mode = ''RGBA'', orientation = None\<rparr>
     ''congcong'' (Finite (3 / 8)) (Finite (1 / 16)) (Finite (1 / 32)) None (Finite 0) =
   Inr \<lparr>width = 1000, height = 800, mode = ''RGBA'', orientation = None\<rparr>
   \<and> wm_composite sample_env \<lparr>width = 1000, height = 800, mode = ''L'', orientation = None\<rparr>
     ''congcong'' (Finite (3 / 8)) (Finite (1 / 16)) (Finite (1 / 32)) None (Finite 0) =
   Inr \<lparr>width = 1000, height = 800, mode = ''RGBA'', orientation = None\<rparr>
   \<and> add_text_watermark sample_env \<lparr>width = 1000, height = 800, mode = ''L'', orientation = None\<rparr>
     ''congcong'' (Finite (3 / 8)) (Finite (1 / 16)) (Finite (1 / 32)) None (Finite 0) =
   Inr \<lparr>width = 1000, height = 800, mode = ''L'', orientation = None\<rparr>
   \<and> wm_composite sample_env \<lparr>width = 1000, height = 800, mode = ''P'', orientation = None\<rparr>
     ''congcong'' (Finite (3 / 8)) (Finite (1 / 16)) (Finite (1 / 32)) None (Finite 0) =
   Inr \<lparr>width = 1000, height = 800, mode = ''RGBA'', orientation = None\<rparr>
   \<and> convert sample_env \<lparr>width = 1000, height = 800, mode = ''RGBA'', orientation = None\<rparr> ''RGB'' =
   Inr \<lparr>width = 1000, height = 800, mode = ''RGB'', orientation = None\<rparr>
   \<and> add_text_watermark sample_env \<lparr>width = 1000, height = 800, mode = ''P'', orientation = None\<rparr>
     ''congcong'' (Finite (3 / 8)) (Finite (1 / 16)) (Finite (1 / 32)) None (Finite 0) =
   Inr \<lparr>width = 1000, height = 800, mode = ''RGB'', orientation = None\<rparr>
   \<and> convert (sample_env\<lparr>convertible := (\<lambda>a b. b = ''RGBA'')\<rparr>)
       \<lparr>width = 1000, height = 800, mode = ''RGBA'', orientation = None\<rparr> ''RGB'' = Inl ValueError
   \<and> add_text_watermark (sample_env\<lparr>convertible := (\<lambda>a b. b = ''RGBA'')\<rparr>)
       \<lparr>width = 1000, height = 800, mode = ''P'', orientation = None\<rparr>
       ''congcong'' (Finite (3 / 8)) (Finite (1 / 16)) (Finite (1 / 32)) None (Finite 0) =
     Inr \<lparr>width = 1000, height = 800, mode = ''RGBA'', orientation = None\<rparr>"
proof -
  have cvL: "convert sample_env \<lparr>width = 1000, height = 800, mode = ''RGBA'', orientation = None\<rparr> ''L'' =
    Inr \<lparr>width = 1000, height = 800, mode = ''L'', orientation = None\<rparr>"
    by (simp add: convert_def sample_env_simps)
  have cvRGB: "convert sample_env \<lparr>width = 1000, height = 800, mode = ''RGBA'', orientation = None\<rparr> ''RGB'' =
    Inr \<lparr>width = 1000, height = 800, mode = ''RGB'', orientation = None\<rparr>"
    by (simp add: convert_def sample_env_simps)
  note a = C6_mode_restoration[OF sample_composite[of "''RGBA''"], THEN conjunct2, THEN conjunct1]
  note b = C6_mode_restoration[OF sample_composite[of "''L''"], THEN conjunct2, THEN conjunct2,
      THEN conjunct1]
  note p = C6_mode_restoration[OF sample_composite[of "''P''"], THEN conjunct2, THEN conjunct2,
      THEN conjunct2]
  have 1: "add_text_watermark sample_env \<lparr>width = 1000, height = 800, mode = ''RGBA'', orientation = None\<rparr>
     ''congcong'' (Finite (3 / 8)) (Finite (1 / 16)) (Finite (1 / 32)) None (Finite 0) =
   Inr \<lparr>width = 1000, height = 800, mode = ''RGBA'', orientation = None\<rparr>"
    using a by simp
  have 2: "add_text_watermark sample_env \<lparr>width = 1000, height = 800, mode = ''L'', orientation = None\<rparr>
     ''congcong'' (Finite (3 / 8)) (Finite (1 / 16)) (Finite (1 / 32)) None (Finite 0) =
   Inr \<lparr>width = 1000, height = 800, mode = ''L'', orientation = None\<rparr>"
    using b cvL by simp
  have pmode: "mode \<lparr>width = 1000, height = 800, mode = ''P'', orientation = None\<rparr> \<noteq> ''RGBA''
      \<and> mode \<lparr>width = 1000, height = 800, mode = ''P'', orientation = None\<rparr> \<noteq> ''RGB''
      \<and> mode \<lparr>width = 1000, height = 800, mode = ''P'', orientation = None\<rparr> \<noteq> ''L''"
    by simp
  from p[rule_format, OF pmode, THEN conjunct1, rule_format, OF cvRGB, THEN conjunct1]
  have 3: "add_text_watermark sample_env \<lparr>width = 1000, height = 800, mode = ''P'', orientation = None\<rparr>
     ''congcong'' (Finite (3 / 8)) (Finite (1 / 16)) (Finite (1 / 32)) None (Finite 0) =
   Inr \<lparr>width = 1000, height = 800, mode = ''RGB'', orientation = None\<rparr>"
    by simp
  have cvfail: "convert (sample_env\<lparr>convertible := (\<lambda>a b. b = ''RGBA'')\<rparr>)
       \<lparr>width = 1000, height = 800, mode = ''RGBA'', orientation = None\<rparr> ''RGB'' = Inl ValueError"
    by (simp add: convert_def)
  note q = C6_mode_restoration[OF strict_composite, THEN conjunct2, THEN conjunct2, THEN conjunct2]
  from q[rule_format, OF pmode, THEN conjunct2, rule_format, OF cvfail]
  have 4: "add_text_watermark (sample_env\<lparr>convertible := (\<lambda>a b. b = ''RGBA'')\<rparr>)
       \<lparr>width = 1000, height = 800, mode = ''P'', orientation = None\<rparr>
       ''congcong'' (Finite (3 / 8)) (Finite (1 / 16)) (Finite (1 / 32)) None (Finite 0) =
     Inr \<lparr>width = 1000, height = 800, mode = ''RGBA'', orientation = None\<rparr>" .
  from sample_composite[of "''RGBA''"] 1 sample_composite[of "''L''"] 2
    sample_composite[of "''P''"] cvRGB 3 cvfail 4
  show ?thesis by (intro conjI)
qed

section \<open>C7: JPEG output\<close>

text \<open>
  C7. When the input path's suffix, lower-cased, is \<open>.jpg\<close> or \<open>.jpeg\<close> and
  \<open>process_image_file\<close> returns, the image it saved is the watermarked image converted to
  RGB, so the saved image has no alpha channel whatever the mode of the source was, and it
  was saved to the output path with the keyword arguments \<open>quality=90, optimize=True\<close>.
\<close>

theorem C7_jpeg_saved_as_rgb:
  assumes ext: "str_lower (path_suffix in_path) \<in> {''.jpg'', ''.jpeg''}"
    and run: "process_image_file env in_path out_path text opacity scale margin_ratio font_path angle
                = Inr saved"
  shows "mode (saved_image saved) = ''RGB''
       \<and> saved_kwargs saved = [(''quality'', IntArg 90), (''optimize'', BoolArg True)]
       \<and> saved_path saved = out_path
       \<and> (\<exists>im wm. open_image env in_path = Inr im
             \<and> add_text_watermark env im text opacity scale margin_ratio font_path angle = Inr wm
             \<and> convert env wm ''RGB'' = Inr (saved_image saved))"
proof -
  from run[unfolded process_image_file_Inr] ext obtain im wm wm' where
    o: "open_image env in_path = Inr im"
    and w: "add_text_watermark env im text opacity scale margin_ratio font_path angle = Inr wm"
    and c: "convert env wm ''RGB'' = Inr wm'"
    and s: "save env wm' out_path [(''quality'', IntArg 90), (''optimize'', BoolArg True)] = Inr saved"
    by auto
  note sv = save_Inr[OF s]
  have m: "mode (saved_image saved) = ''RGB''" using convert_Inr(3)[OF c] sv(2) by simp
  have "open_image env in_path = Inr im
             \<and> add_text_watermark env im text opacity scale margin_ratio font_path angle = Inr wm
             \<and> convert env wm ''RGB'' = Inr (saved_image saved)"
    using o w c sv(2) by simp
  then have "\<exists>im wm. open_image env in_path = Inr im
             \<and> add_text_watermark env im text opacity scale margin_ratio font_path angle = Inr wm
             \<and> convert env wm ''RGB'' = Inr (saved_image saved)"
    by (intro exI)
  with m sv(3) sv(1) show ?thesis by (intro conjI)
qed

text \<open>
  Witness of C7: the sample file \<open>in/sub/b.JPG\<close> is a JPEG by its suffix, the step
  returns, and the saved image is RGB.
\<close>

theorem C7_jpeg_saved_as_rgb_witness:
  "str_lower (path_suffix [''in'', ''sub'', ''b.JPG'']) \<in> {''.jpg'', ''.jpeg''}
   \<and> process_image_file sample_env [''in'', ''sub'', ''b.JPG'']
       [''in'', ''watermarked'', ''sub'', ''b.JPG'']
       ''congcong'' (Finite (3 / 8)) (Finite (1 / 16)) (Finite (1 / 32)) None (Finite 0) =
     Inr \<lparr>saved_path = [''in'', ''watermarked'', ''sub'', ''b.JPG''],
          saved_image = \<lparr>width = 3000, height = 4000, mode = ''RGB'', orientation = None\<rparr>,
          saved_kwargs = [(''quality'', IntArg 90), (''optimize'', BoolArg True)]\<rparr>
   \<and> mode (saved_image
         \<lparr>saved_path = [''in'', ''watermarked'', ''sub'', ''b.JPG''],
          saved_image = \<lparr>width = 3000, height = 4000, mode = ''RGB'', orientation = None\<rparr>,
          saved_kwargs = [(''quality'', IntArg 90), (''optimize'', BoolArg True)]\<rparr>) = ''RGB''"
proof -
  have e: "str_lower (path_suffix [''in'', ''sub'', ''b.JPG'']) \<in> {''.jpg'', ''.jpeg''}"
    by (simp add: sample_suffixes)
  from C7_jpeg_saved_as_rgb[OF e sample_process] e sample_process
  show ?thesis by (intro conjI) simp_all
qed

section \<open>C8: the directory scan\<close>

text \<open>
  C8, as the code has it. The scan never raises. Of the entries below the input root (all
  of them by default, only the root's direct children when \<open>--no-recursive\<close> is given)
  it selects, in the order of the listing, exactly those that are regular files, whose
  suffix lower-cased is one of \<open>.jpg .jpeg .png .webp .bmp .tif .tiff\<close>, and which do not
  resolve to a path that has the resolved output root as a prefix. It pairs each selected
  file with the output root followed by the file's path relative to the input root.
\<close>

theorem C8_scan_by_mode:
  "files env input_dir output_dir no_recursive =
     Inr (map (\<lambda>r. (input_dir @ r, output_dir @ r))
            (filter (\<lambda>r. (no_recursive \<longrightarrow> length r = 1)
                        \<and> is_file env (input_dir @ r)
                        \<and> str_lower (path_suffix (input_dir @ r))
                            \<in> {''.jpg'', ''.jpeg'', ''.png'', ''.webp'', ''.bmp'', ''.tif'', ''.tiff''}
                        \<and> \<not> (\<exists>rp ro. resolve env (input_dir @ r) = Inr rp
                                    \<and> resolve env output_dir = Inr ro \<and> prefix ro rp))
               (listing env input_dir)))"
proof (cases no_recursive)
  case True
  then show ?thesis
    by (simp add: files_listing is_image_file_def ALLOWED_EXTS_def
        is_subpath_iff conj_commute conj_left_commute cong: conj_cong)
next
  case False
  then show ?thesis
    by (simp add: files_listing is_image_file_def ALLOWED_EXTS_def is_subpath_iff)
qed

text \<open>
  Witness of C8: in the sample directory the recursive scan selects \<open>a.png\<close>,
  \<open>sub/b.JPG\<close> and \<open>bad.jpeg\<close>, and leaves out the text file, the directories and
  the earlier result under the output root; the non-recursive scan selects \<open>a.png\<close> and
  \<open>bad.jpeg\<close>.
\<close>

theorem C8_scan_by_mode_witness:
  "files sample_env [''in''] [''in'', ''watermarked''] False =
     Inr [([''in'', ''a.png''], [''in'', ''watermarked'', ''a.png'']),
          ([''in'', ''sub'', ''b.JPG''], [''in'', ''watermarked'', ''sub'', ''b.JPG'']),
          ([''in'', ''bad.jpeg''], [''in'', ''watermarked'', ''bad.jpeg''])]
   \<and> files sample_env [''in''] [''in'', ''watermarked''] True =
     Inr [([''in'', ''a.png''], [''in'', ''watermarked'', ''a.png'']),
          ([''in'', ''bad.jpeg''], [''in'', ''watermarked'', ''bad.jpeg''])]"
proof -
  have a: "files sample_env [''in''] [''in'', ''watermarked''] False =
     Inr [([''in'', ''a.png''], [''in'', ''watermarked'', ''a.png'']),
          ([''in'', ''sub'', ''b.JPG''], [''in'', ''watermarked'', ''sub'', ''b.JPG'']),
          ([''in'', ''bad.jpeg''], [''in'', ''watermarked'', ''bad.jpeg''])]"
    unfolding C8_scan_by_mode[of sample_env "[''in'']" "[''in'', ''watermarked'']" False]
    by (simp add: sample_env_simps sample_listing_def sample_suffixes)
  have b: "files sample_env [''in''] [''in'', ''watermarked''] True =
     Inr [([''in'', ''a.png''], [''in'', ''watermarked'', ''a.png'']),
          ([''in'', ''bad.jpeg''], [''in'', ''watermarked'', ''bad.jpeg''])]"
    unfolding C8_scan_by_mode[of sample_env "[''in'']" "[''in'', ''watermarked'']" True]
    by (simp add: sample_env_simps sample_listing_def sample_suffixes)
  from a b show ?thesis by (intro conjI)
qed

text \<open>
  Counterexample to C8 as stated: with \<open>--no-recursive\<close> the file \<open>in/sub/b.JPG\<close> is a
  regular file under the input root, its suffix is an allowed one and it is not inside the
  output root, and the scan does not select it.
\<close>

theorem C8_no_recursive_counterexample:
  "files sample_env [''in''] [''in'', ''watermarked''] True =
     Inr [([''in'', ''a.png''], [''in'', ''watermarked'', ''a.png'']),
          ([''in'', ''bad.jpeg''], [''in'', ''watermarked'', ''bad.jpeg''])]
   \<and> [''sub'', ''b.JPG''] \<in> set (listing sample_env [''in''])
   \<and> is_file sample_env [''in'', ''sub'', ''b.JPG'']
   \<and> str_lower (path_suffix [''in'', ''sub'', ''b.JPG'']) \<in> ALLOWED_EXTS
   \<and> \<not> is_subpath sample_env [''in'', ''sub'', ''b.JPG''] [''in'', ''watermarked'']"
  by (simp add: sample_files sample_env_simps sample_listing_def sample_suffixes
      ALLOWED_EXTS_def sample_is_subpath)

section \<open>C9: failures of single files\<close>



section \<open>C10: the default font\<close>

text \<open>
  C10. In every call of \<open>add_text_watermark\<close> that returns, \<open>fp\<close> is the result of
  \<open>find_font\<close>, which is \<open>None\<close> exactly when the explicit font path is absent, empty or
  not an existing file and none of the five candidate files exists. When \<open>fp\<close> is \<open>None\<close>,
  or when loading the file \<open>fp\<close> at the computed size raises, the font is the one
  \<open>load_default()\<close> returns, which carries no size: the text is measured as
  \<open>textbbox\<close> of the default font and the text alone, so its width and height do not
  depend on the image's size or on the scale.
\<close>

theorem C10_default_font_fallback:
  assumes call: "add_text_watermark env img text opacity scale margin_ratio font_path angle = Inr out"
  shows "\<exists>v bbox.
           text_layer env (width (exif_transpose img)) (height (exif_transpose img))
             text opacity scale margin_ratio font_path angle = Inr v
         \<and> v_fp v = find_font env font_path
         \<and> (v_fp v = None \<longleftrightarrow>
               (font_path = None \<or> font_path = Some []
                  \<or> \<not> is_file env (parse_path env (the font_path)))
               \<and> (\<forall>c \<in> set candidates. \<not> is_file env (parse_path env c)))
         \<and> textbbox env (v_font v) text = Inr bbox
         \<and> v_tw v = fst (snd (snd bbox)) - fst bbox
         \<and> v_th v = snd (snd (snd bbox)) - fst (snd bbox)
         \<and> (v_fp v = None \<or> (\<exists>s e. v_fp v = Some s \<and> truetype_error env s (v_size v) = Some e)
              \<longrightarrow> v_font v = DefaultFont \<and> textbbox env DefaultFont text = Inr bbox)"
proof -
  obtain v where v: "text_layer env (width (exif_transpose img)) (height (exif_transpose img))
                       text opacity scale margin_ratio font_path angle = Inr v"
    using call by (rule add_text_watermark_vars)
  from v obtain bbox where
    bb: "textbbox env (v_font v) text = Inr bbox"
    and fp: "v_fp v = find_font env font_path"
    and ft: "v_font v = load_font env (v_fp v) (v_size v)"
    and tw: "v_tw v = fst (snd (snd bbox)) - fst bbox"
    and th: "v_th v = snd (snd (snd bbox)) - fst (snd bbox)"
    by (rule text_layer_fields)
  have none: "v_fp v = None \<longleftrightarrow>
               (font_path = None \<or> font_path = Some []
                  \<or> \<not> is_file env (parse_path env (the font_path)))
               \<and> (\<forall>c \<in> set candidates. \<not> is_file env (parse_path env c))"
    unfolding fp by (rule find_font_None)
  have fb: "v_font v = DefaultFont \<and> textbbox env DefaultFont text = Inr bbox"
    if "v_fp v = None \<or> (\<exists>s e. v_fp v = Some s \<and> truetype_error env s (v_size v) = Some e)"
  proof -
    have "v_font v = DefaultFont" unfolding ft using that by (rule load_font_fallback)
    then show ?thesis using bb by simp
  qed
  have fb': "v_fp v = None \<or> (\<exists>s e. v_fp v = Some s \<and> truetype_error env s (v_size v) = Some e)
              \<longrightarrow> v_font v = DefaultFont \<and> textbbox env DefaultFont text = Inr bbox"
    using fb by (rule impI)
  have "text_layer env (width (exif_transpose img)) (height (exif_transpose img))
             text opacity scale margin_ratio font_path angle = Inr v
         \<and> v_fp v = find_font env font_path
         \<and> (v_fp v = None \<longleftrightarrow>
               (font_path = None \<or> font_path = Some []
                  \<or> \<not> is_file env (parse_path env (the font_path)))
               \<and> (\<forall>c \<in> set candidates. \<not> is_file env (parse_path env c)))
         \<and> textbbox env (v_font v) text = Inr bbox
         \<and> v_tw v = fst (snd (snd bbox)) - fst bbox
         \<and> v_th v = snd (snd (snd bbox)) - fst (snd bbox)
         \<and> (v_fp v = None \<or> (\<exists>s e. v_fp v = Some s \<and> truetype_error env s (v_size v) = Some e)
              \<longrightarrow> v_font v = DefaultFont \<and> textbbox env DefaultFont text = Inr bbox)"
    using v fp none bb tw th fb' by (intro conjI)
  then show ?thesis by (intro exI)
qed

text \<open>
  Witness of C10: the sample environment has no font file. A 1000 by 800 image (font
  size 50) and a 40 by 30 image (font size 12) both get the default font and the same
  measured text size.
\<close>

theorem C10_default_font_fallback_witness:
  "add_text_watermark sample_env \<lparr>width = 1000, height = 800, mode = ''RGB'', orientation = None\<rparr>
     ''congcong'' (Finite (3 / 8)) (Finite (1 / 16)) (Finite (1 / 32)) None (Finite 0) =
   Inr \<lparr>width = 1000, height = 800, mode = ''RGB'', orientation = None\<rparr>
   \<and> add_text_watermark sample_env \<lparr>width = 40, height = 30, mode = ''RGB'', orientation = None\<rparr>
     ''congcong'' (Finite (3 / 8)) (Finite (1 / 16)) (Finite (1 / 32)) None (Finite 0) =
   Inr \<lparr>width = 40, height = 30, mode = ''RGB'', orientation = None\<rparr>
   \<and> (\<exists>v v' bbox.
         text_layer sample_env 1000 800 ''congcong'' (Finite (3 / 8)) (Finite (1 / 16))
           (Finite (1 / 32)) None (Finite 0) = Inr v
       \<and> text_layer sample_env 40 30 ''congcong'' (Finite (3 / 8)) (Finite (1 / 16))
           (Finite (1 / 32)) None (Finite 0) = Inr v'
       \<and> v_fp v = None \<and> v_fp v' = None
       \<and> v_size v = 50 \<and> v_size v' = 12
       \<and> v_font v = DefaultFont \<and> v_font v' = DefaultFont
       \<and> textbbox sample_env DefaultFont ''congcong'' = Inr bbox
       \<and> v_tw v = fst (snd (snd bbox)) - fst bbox \<and> v_tw v' = fst (snd (snd bbox)) - fst bbox
       \<and> v_th v = snd (snd (snd bbox)) - fst (snd bbox)
       \<and> v_th v' = snd (snd (snd bbox)) - fst (snd bbox))"
proof -
  have w: "width (exif_transpose \<lparr>width = 1000, height = 800, mode = ''RGB'', orientation = None\<rparr>) = 1000"
    and h: "height (exif_transpose \<lparr>width = 1000, height = 800, mode = ''RGB'', orientation = None\<rparr>) = 800"
    and w': "width (exif_transpose \<lparr>width = 40, height = 30, mode = ''RGB'', orientation = None\<rparr>) = 40"
    and h': "height (exif_transpose \<lparr>width = 40, height = 30, mode = ''RGB'', orientation = None\<rparr>) = 30"
    by (simp_all add: exif_transpose_def)
  from C10_default_font_fallback[OF sample_call, unfolded w h]
  obtain v :: wm_vars and bbox where
    v: "text_layer sample_env 1000 800 ''congcong'' (Finite (3 / 8)) (Finite (1 / 16))
           (Finite (1 / 32)) None (Finite 0) = Inr v"
    and fp: "v_fp v = find_font sample_env None"
    and tw: "v_tw v = fst (snd (snd bbox)) - fst bbox"
    and th: "v_th v = snd (snd (snd bbox)) - fst (snd bbox)"
    and fb: "v_fp v = None \<or> (\<exists>s e. v_fp v = Some s \<and> truetype_error sample_env s (v_size v) = Some e)
              \<longrightarrow> v_font v = DefaultFont \<and> textbbox sample_env DefaultFont ''congcong'' = Inr bbox"
    by blast
  from C10_default_font_fallback[OF small_call, unfolded w' h']
  obtain v' :: wm_vars and bbox' where
    v': "text_layer sample_env 40 30 ''congcong'' (Finite (3 / 8)) (Finite (1 / 16))
           (Finite (1 / 32)) None (Finite 0) = Inr v'"
    and fp': "v_fp v' = find_font sample_env None"
    and tw': "v_tw v' = fst (snd (snd bbox')) - fst bbox'"
    and th': "v_th v' = snd (snd (snd bbox')) - fst (snd bbox')"
    and fb': "v_fp v' = None \<or> (\<exists>s e. v_fp v' = Some s \<and> truetype_error sample_env s (v_size v') = Some e)
              \<longrightarrow> v_font v' = DefaultFont \<and> textbbox sample_env DefaultFont ''congcong'' = Inr bbox'"
    by blast
  have n: "v_fp v = None" "v_fp v' = None" using fp fp' by (simp_all add: sample_find_font)
  have d: "v_font v = DefaultFont" "textbbox sample_env DefaultFont ''congcong'' = Inr bbox"
    using fb n(1) by simp_all
  have d': "v_font v' = DefaultFont" "textbbox sample_env DefaultFont ''congcong'' = Inr bbox'"
    using fb' n(2) by simp_all
  have same: "bbox' = bbox" using d(2) d'(2) by simp
  have sz: "v_size v = 50" using v unfolding sample_text_layer by auto
  have sz': "v_size v' = 12" using v' unfolding small_text_layer by auto
  have "text_layer sample_env 1000 800 ''congcong'' (Finite (3 / 8)) (Finite (1 / 16))
           (Finite (1 / 32)) None (Finite 0) = Inr v
       \<and> text_layer sample_env 40 30 ''congcong'' (Finite (3 / 8)) (Finite (1 / 16))
           (Finite (1 / 32)) None (Finite 0) = Inr v'
       \<and> v_fp v = None \<and> v_fp v' = None
       \<and> v_size v = 50 \<and> v_size v' = 12
       \<and> v_font v = DefaultFont \<and> v_font v' = DefaultFont
       \<and> textbbox sample_env DefaultFont ''congcong'' = Inr bbox
       \<and> v_tw v = fst (snd (snd bbox)) - fst bbox \<and> v_tw v' = fst (snd (snd bbox)) - fst bbox
       \<and> v_th v = snd (snd (snd bbox)) - fst (snd bbox)
       \<and> v_th v' = snd (snd (snd bbox)) - fst (snd bbox)"
    using v v' n sz sz' d d'(1) tw th tw'[unfolded same] th'[unfolded same] by (intro conjI)
  then have "\<exists>v v' bbox.
         text_layer sample_env 1000 800 ''congcong'' (Finite (3 / 8)) (Finite (1 / 16))
           (Finite (1 / 32)) None (Finite 0) = Inr v
       \<and> text_layer sample_env 40 30 ''congcong'' (Finite (3 / 8)) (Finite (1 / 16))
           (Finite (1 / 32)) None (Finite 0) = Inr v'
       \<and> v_fp v = None \<and> v_fp v' = None
       \<and> v_size v = 50 \<and> v_size v' = 12
       \<and> v_font v = DefaultFont \<and> v_font v' = DefaultFont
       \<and> textbbox sample_env DefaultFont ''congcong'' = Inr bbox
       \<and> v_tw v = fst (snd (snd bbox)) - fst bbox \<and> v_tw v' = fst (snd (snd bbox)) - fst bbox
       \<and> v_th v = snd (snd (snd bbox)) - fst (snd bbox)
       \<and> v_th v' = snd (snd (snd bbox)) - fst (snd bbox)"
    by (intro exI)
  with sample_call small_call show ?thesis by (intro conjI)
qed

end
